theory Spec2Isabelle
  imports Complex_Main "HOL-Library.Multiset"
begin

section \<open>Modelling conventions\<close>

text \<open>
  The dashboard is TypeScript on top of d3. The development embeds the data pipeline and
  the interaction state of its three charts.

  \<^item> A JavaScript string is a \<^typ>\<open>string\<close>; a value of type \<open>string | undefined\<close> or
    \<open>string | null\<close> is a \<^typ>\<open>string option\<close>. Characters are the code units below 256,
    so the white space removed by \<open>trim\<close> is the part of JavaScript's white space and line
    terminators in that range: tab, line feed, vertical tab, form feed, carriage return,
    space and no-break space.
  \<^item> A JavaScript number is \<open>NaN\<close> or a finite value: a real for a measurement, an
    integer for a parsed year. Comparisons of doubles agree with the comparisons of the
    reals they denote; rounding in sums and the two infinities are not modelled.
  \<^item> An array is a list; \<open>undefined\<close> read from an array or a \<open>Map\<close> is \<^term>\<open>None\<close>.
  \<^item> The conversion of a string to a number (\<open>Number(s)\<close>, unary \<open>+\<close>) belongs to the
    language; the functions that use it take it as the parameter \<open>num\<close>.
\<close>

section \<open>Numbers and operators of the language\<close>

datatype 'a number = NaN | Num 'a

definition isNaN :: "'a number \<Rightarrow> bool" where
  "isNaN x \<longleftrightarrow> x = NaN"

definition isFinite :: "'a number \<Rightarrow> bool" where
  "isFinite x \<longleftrightarrow> x \<noteq> NaN"

text \<open>\<open>x < c\<close>, \<open>x > c\<close>, \<open>x <= c\<close> and \<open>x >= c\<close>: every comparison with \<open>NaN\<close> is false.\<close>

definition lt :: "('a::linorder) number \<Rightarrow> 'a \<Rightarrow> bool" where
  "lt x c = (case x of NaN \<Rightarrow> False | Num v \<Rightarrow> v < c)"

definition gt :: "('a::linorder) number \<Rightarrow> 'a \<Rightarrow> bool" where
  "gt x c = (case x of NaN \<Rightarrow> False | Num v \<Rightarrow> c < v)"

definition le :: "('a::linorder) number \<Rightarrow> 'a \<Rightarrow> bool" where
  "le x c = (case x of NaN \<Rightarrow> False | Num v \<Rightarrow> v \<le> c)"

definition ge :: "('a::linorder) number \<Rightarrow> 'a \<Rightarrow> bool" where
  "ge x c = (case x of NaN \<Rightarrow> False | Num v \<Rightarrow> c \<le> v)"

text \<open>
  \<open>a || b\<close> on strings that may be absent: the left operand when it is truthy (present
  and not empty). \<open>a ?? b\<close>: the left operand when it is present. Each comes in two
  versions, for a right operand that may be absent and for one that is a string.
\<close>

definition truthy :: "string option \<Rightarrow> bool" where
  "truthy a \<longleftrightarrow> a \<noteq> None \<and> a \<noteq> Some []"

definition or_opt :: "string option \<Rightarrow> string option \<Rightarrow> string option" where
  "or_opt a b = (if truthy a then a else b)"

definition or_str :: "string option \<Rightarrow> string \<Rightarrow> string" where
  "or_str a b = (case a of None \<Rightarrow> b | Some s \<Rightarrow> if s = [] then b else s)"

definition nullish_opt :: "'a option \<Rightarrow> 'a option \<Rightarrow> 'a option" where
  "nullish_opt a b = (case a of None \<Rightarrow> b | Some s \<Rightarrow> Some s)"

definition nullish :: "'a option \<Rightarrow> 'a \<Rightarrow> 'a" where
  "nullish a b = (case a of None \<Rightarrow> b | Some s \<Rightarrow> s)"

text \<open>The exception of a property access on \<open>undefined\<close>.\<close>

datatype error = TypeError

text \<open>\<open>xs[i]\<close>: \<open>undefined\<close> outside the array.\<close>

definition array_get :: "'a list \<Rightarrow> int \<Rightarrow> 'a option" where
  "array_get xs i = (if 0 \<le> i \<and> i < int (length xs) then Some (xs ! nat i) else None)"

text \<open>\<open>Math.round\<close>: the nearest integer, a half rounding up.\<close>

definition Math_round :: "real \<Rightarrow> int" where
  "Math_round x = \<lfloor>x + 1 / 2\<rfloor>"

section \<open>String operations of the language\<close>

definition isWhiteSpace :: "char \<Rightarrow> bool" where
  "isWhiteSpace c \<longleftrightarrow>
     c \<in> set [CHR 0x09, CHR 0x0A, CHR 0x0B, CHR 0x0C, CHR 0x0D, CHR 0x20, CHR 0xA0]"

text \<open>\<open>String.prototype.trim\<close>: white space is dropped at both ends.\<close>

definition trim :: "string \<Rightarrow> string" where
  "trim s = rev (dropWhile isWhiteSpace (rev (dropWhile isWhiteSpace s)))"

text \<open>\<open>s.replaceAll(pat, rep)\<close> for a pattern of one character.\<close>

fun replaceAll :: "char \<Rightarrow> string \<Rightarrow> string \<Rightarrow> string" where
  "replaceAll pat rep [] = []"
| "replaceAll pat rep (c # cs) =
     (if c = pat then rep @ replaceAll pat rep cs else c # replaceAll pat rep cs)"

text \<open>
  \<open>s.split(sep)\<close> for a separator of one character: \<open>cur\<close> is the part being read. The
  result is never empty: \<open>"".split(",")\<close> is \<open>[""]\<close>.
\<close>

fun split_from :: "char \<Rightarrow> string \<Rightarrow> string \<Rightarrow> string list" where
  "split_from sep cur [] = [cur]"
| "split_from sep cur (c # cs) =
     (if c = sep then cur # split_from sep [] cs else split_from sep (cur @ [c]) cs)"

definition split :: "char \<Rightarrow> string \<Rightarrow> string list" where
  "split sep s = split_from sep [] s"

section \<open>Genre extractor\<close>

text \<open>
  \<open>pickPrimaryGenre\<close> of the heat map (both versions of the component have the same
  text). \<open>!raw\<close> holds for \<open>undefined\<close> and for the empty string; \<open>filter(Boolean)\<close>
  keeps the non-empty strings; \<open>parts[0] ?? "Unknown"\<close> is the first part if there is one.
\<close>

definition pickPrimaryGenre :: "string option \<Rightarrow> string" where
  "pickPrimaryGenre raw =
     (case raw of
        None \<Rightarrow> ''Unknown''
      | Some s \<Rightarrow>
          if s = [] then ''Unknown''
          else
            let cleaned = replaceAll (CHR 0x22) []
                            (replaceAll (CHR 0x27) []
                              (replaceAll (CHR '']'') [] (replaceAll (CHR ''['') [] s)));
                parts = filter (\<lambda>p. p \<noteq> []) (map trim (split (CHR '','') cleaned))
            in (case parts of [] \<Rightarrow> ''Unknown'' | p # _ \<Rightarrow> p))"

text \<open>
  The algorithm in the words of the specification: strip the four characters, split on
  commas, trim each part, drop the empty parts, return the first part left, or
  \<open>"Unknown"\<close> when the input is absent or nothing is left.
\<close>

definition stripped_chars :: "char list" where
  "stripped_chars = [CHR ''['', CHR '']'', CHR 0x27, CHR 0x22]"

definition extractPrimaryGenre_spec :: "string option \<Rightarrow> string" where
  "extractPrimaryGenre_spec raw =
     (case raw of
        None \<Rightarrow> ''Unknown''
      | Some s \<Rightarrow>
          (case filter (\<lambda>p. p \<noteq> [])
                  (map trim (split (CHR '','') (filter (\<lambda>c. c \<notin> set stripped_chars) s))) of
             [] \<Rightarrow> ''Unknown''
           | p # _ \<Rightarrow> p))"

section \<open>Library functions: grouping, sorting, mean\<close>

text \<open>
  \<open>d3.group\<close> keeps its groups in a \<open>Map\<close>: a value whose key is already there is pushed
  on that key's array, a value with a new key opens a new entry at the end. The groups
  are read back in insertion order.
\<close>

fun add_to_group :: "'k \<Rightarrow> 'a \<Rightarrow> ('k \<times> 'a list) list \<Rightarrow> ('k \<times> 'a list) list" where
  "add_to_group k v [] = [(k, [v])]"
| "add_to_group k v ((k', vs) # groups) =
     (if k' = k then (k', vs @ [v]) # groups else (k', vs) # add_to_group k v groups)"

definition group :: "('a \<Rightarrow> 'k) \<Rightarrow> 'a list \<Rightarrow> ('k \<times> 'a list) list" where
  "group keyof values = foldl (\<lambda>groups v. add_to_group (keyof v) v groups) [] values"

text \<open>\<open>d3.rollups(values, reduce, key)\<close> and \<open>d3.rollups(values, reduce, key1, key2)\<close>.\<close>

definition rollups :: "('a list \<Rightarrow> 'r) \<Rightarrow> ('a \<Rightarrow> 'k) \<Rightarrow> 'a list \<Rightarrow> ('k \<times> 'r) list" where
  "rollups reduce keyof values = map (\<lambda>(k, vs). (k, reduce vs)) (group keyof values)"

definition rollups2 ::
  "('a list \<Rightarrow> 'r) \<Rightarrow> ('a \<Rightarrow> 'k) \<Rightarrow> ('a \<Rightarrow> 'l) \<Rightarrow> 'a list \<Rightarrow> ('k \<times> ('l \<times> 'r) list) list" where
  "rollups2 reduce key1 key2 values =
     map (\<lambda>(k, vs). (k, rollups reduce key2 vs)) (group key1 values)"

text \<open>
  \<open>Array.prototype.sort(compare)\<close> is stable: the result is ordered by the comparison,
  and elements that compare equal keep their order. For a consistent comparison this
  fixes the result, which is computed here by insertion from the right: an element goes
  before the first element that it does not compare greater than.
\<close>

fun insert_by :: "('a \<Rightarrow> 'a \<Rightarrow> real) \<Rightarrow> 'a \<Rightarrow> 'a list \<Rightarrow> 'a list" where
  "insert_by compare x [] = [x]"
| "insert_by compare x (y # ys) =
     (if compare x y \<le> 0 then x # y # ys else y # insert_by compare x ys)"

definition sort_with :: "('a \<Rightarrow> 'a \<Rightarrow> real) \<Rightarrow> 'a list \<Rightarrow> 'a list" where
  "sort_with compare xs = foldr (insert_by compare) xs []"

text \<open>
  \<open>d3.mean(values, accessor)\<close>: the values that are not numbers are skipped; the result
  is \<open>undefined\<close> when no value is left.
\<close>

definition d3_mean :: "real number list \<Rightarrow> real option" where
  "d3_mean values =
     (let xs = concat (map (\<lambda>v. case v of NaN \<Rightarrow> [] | Num x \<Rightarrow> [x]) values)
      in if xs = [] then None else Some (sum_list xs / real (length xs)))"

section \<open>Rows of the data file\<close>

text \<open>
  A row as the CSV reader delivers it: a column of the file is a string in every row, a
  column the file does not have is \<open>undefined\<close>.
\<close>

record raw_row =
  artist_name :: "string option"
  artists :: "string option"
  artist_genres :: "string option"
  artist_popularity :: "string option"
  track_popularity :: "string option"
  popularity :: "string option"
  track_duration_min :: "string option"

section \<open>Stream chart: duration by popularity band\<close>

text \<open>
  \<open>filteredData\<close>: the condition \<open>selectedArtist ? ... : ...\<close> is the truthiness of the
  selection, so \<open>null\<close> and the empty string both take the branch that keeps every row.
\<close>

definition filteredData :: "string option \<Rightarrow> raw_row list \<Rightarrow> raw_row list" where
  "filteredData selectedArtist data =
     (case selectedArtist of
        None \<Rightarrow> data
      | Some a \<Rightarrow> if a = [] then data else filter (\<lambda>d. or_str (artist_name d) [] = a) data)"

record stream_row =
  s_minutes :: "real number"
  s_pop :: "real number"

definition stream_rows :: "(string \<Rightarrow> real number) \<Rightarrow> raw_row list \<Rightarrow> stream_row list" where
  "stream_rows num fd =
     filter (\<lambda>d. isFinite (s_minutes d) \<and> isFinite (s_pop d) \<and> gt (s_minutes d) 0 \<and> lt (s_minutes d) 15)
       (map (\<lambda>d. \<lparr>s_minutes = num (nullish (track_duration_min d) []),
                  s_pop = num (nullish (nullish_opt (track_popularity d) (popularity d)) [])\<rparr>) fd)"

definition durationLabel :: "real number \<Rightarrow> string" where
  "durationLabel m =
     (if lt m 2 then ''0-2''
      else if lt m 3 then ''2-3''
      else if lt m 4 then ''3-4''
      else if lt m 5 then ''4-5''
      else ''5+'')"

definition popBand :: "real number \<Rightarrow> string" where
  "popBand p = (if lt p 40 then ''Low'' else if lt p 70 then ''Medium'' else ''High'')"

definition processed :: "stream_row list \<Rightarrow> (string \<times> string) list" where
  "processed rows = map (\<lambda>d. (durationLabel (s_minutes d), popBand (s_pop d))) rows"

definition durations :: "string list" where
  "durations = [''0-2'', ''2-3'', ''3-4'', ''4-5'', ''5+'']"

definition bands :: "string list" where
  "bands = [''Low'', ''Medium'', ''High'']"

text \<open>
  The aggregation of the stream chart: the counts by duration label and band, and the
  dense table built from them. A table row is its duration and its count properties;
  \<open>row[band] = count\<close> sets a property, and \<open>table.find\<close> gives the first row of a
  duration, or \<open>undefined\<close>, on which the assignment throws.
\<close>

definition roll :: "(string \<times> string) list \<Rightarrow> (string \<times> (string \<times> nat) list) list" where
  "roll pr = rollups2 length fst snd pr"

definition table0 :: "(string \<times> (string \<times> nat) list) list" where
  "table0 = map (\<lambda>d. (d, map (\<lambda>b. (b, 0)) bands)) durations"

fun set_prop :: "string \<Rightarrow> nat \<Rightarrow> (string \<times> nat) list \<Rightarrow> (string \<times> nat) list" where
  "set_prop k v [] = [(k, v)]"
| "set_prop k v ((k', v') # ps) =
     (if k' = k then (k', v) # ps else (k', v') # set_prop k v ps)"

fun update_row ::
  "string \<Rightarrow> (string \<times> nat) list \<Rightarrow> (string \<times> (string \<times> nat) list) list
     \<Rightarrow> error + (string \<times> (string \<times> nat) list) list" where
  "update_row dur inner [] = (if inner = [] then Inr [] else Inl TypeError)"
| "update_row dur inner ((d, obj) # rest) =
     (if d = dur then Inr ((d, foldl (\<lambda>obj (band, count). set_prop band count obj) obj inner) # rest)
      else (case update_row dur inner rest of
              Inl e \<Rightarrow> Inl e
            | Inr rest' \<Rightarrow> Inr ((d, obj) # rest')))"

fun fill_table ::
  "(string \<times> (string \<times> nat) list) list \<Rightarrow> (string \<times> (string \<times> nat) list) list
     \<Rightarrow> error + (string \<times> (string \<times> nat) list) list" where
  "fill_table [] table = Inr table"
| "fill_table ((dur, inner) # rest) table =
     (case update_row dur inner table of
        Inl e \<Rightarrow> Inl e
      | Inr table' \<Rightarrow> fill_table rest table')"

definition stream_roll ::
  "string option \<Rightarrow> (string \<Rightarrow> real number) \<Rightarrow> raw_row list \<Rightarrow> (string \<times> (string \<times> nat) list) list" where
  "stream_roll selectedArtist num data =
     roll (processed (stream_rows num (filteredData selectedArtist data)))"

definition stream_table ::
  "string option \<Rightarrow> (string \<Rightarrow> real number) \<Rightarrow> raw_row list
     \<Rightarrow> error + (string \<times> (string \<times> nat) list) list" where
  "stream_table selectedArtist num data = fill_table (stream_roll selectedArtist num data) table0"

section \<open>Bar chart: selection by click\<close>

text \<open>
  The click handler of a bar whose artist is \<open>d0\<close>, in a render whose selection is
  \<open>selectedArtist\<close>: the value it passes to \<open>onSelectArtist\<close>, which is the setter of the
  selection state of \<open>Layout\<close>. The state starts as \<open>null\<close>.
\<close>

definition initial_selectedArtist :: "string option" where
  "initial_selectedArtist = None"

definition click :: "string option \<Rightarrow> string \<Rightarrow> string option" where
  "click selectedArtist d0 = (if Some d0 = selectedArtist then None else Some d0)"

section \<open>Heat map: the timestep cursor\<close>

definition MIN_YEAR :: int where
  "MIN_YEAR = 1950"

definition MAX_YEAR :: int where
  "MAX_YEAR = 2026"

text \<open>\<open>useState(MIN_YEAR)\<close>: the year revealed when the component mounts.\<close>

definition initial_currentYear :: int where
  "initial_currentYear = MIN_YEAR"

definition margin_left :: real where
  "margin_left = 160"

definition range_stop :: real where
  "range_stop = 1100 - 120"

text \<open>
  \<open>x.step()\<close> of \<open>d3.scaleBand().domain(years).range([margin.left, width - margin.right])
  .padding(0.05)\<close> for a domain of \<open>n\<close> years: d3 divides the length of the range by
  \<open>max(1, n - paddingInner + 2 * paddingOuter)\<close>, and \<open>padding\<close> sets both paddings.
  The years of the domain are pairwise different, so \<open>n\<close> is the length of their list.
\<close>

definition x_step :: "nat \<Rightarrow> real" where
  "x_step n = (range_stop - margin_left) / max 1 (real n - 0.05 + 0.05 * 2)"

text \<open>
  The drag handler: \<open>drag_idx\<close> is its \<open>idx\<close> for a scale step \<open>step\<close>, and \<open>drag\<close> is
  the value \<open>years[idx]\<close> that it passes to \<open>setCurrentYear\<close>.
\<close>

definition drag_index :: "real \<Rightarrow> real \<Rightarrow> real" where
  "drag_index step xPos = (xPos - margin_left) / step"

definition drag_idx :: "real \<Rightarrow> nat \<Rightarrow> real \<Rightarrow> int" where
  "drag_idx step n xPos = max 0 (min (int n - 1) (Math_round (drag_index step xPos)))"

definition drag :: "int list \<Rightarrow> real \<Rightarrow> int option" where
  "drag years xPos = array_get years (drag_idx (x_step (length years)) (length years) xPos)"

section \<open>Bar chart: top artists\<close>

record clean_row =
  c_artist :: string
  c_pop :: "real number"
  c_genre :: string
  c_artistPopularity :: "real number"

text \<open>The callback of \<open>data.map\<close>, then the filter \<open>d.artist && !isNaN(d.pop)\<close>.\<close>

definition clean :: "(string \<Rightarrow> real number) \<Rightarrow> raw_row \<Rightarrow> clean_row" where
  "clean num d =
     \<lparr>c_artist = or_str (or_opt (artist_name d) (artists d)) [],
      c_pop = (case nullish_opt (track_popularity d) (popularity d) of
                 None \<Rightarrow> NaN
               | Some s \<Rightarrow> num s),
      c_genre = or_str (artist_genres d) ''Unknown'',
      c_artistPopularity = (case artist_popularity d of None \<Rightarrow> Num 0 | Some s \<Rightarrow> num s)\<rparr>"

definition cleaned :: "(string \<Rightarrow> real number) \<Rightarrow> raw_row list \<Rightarrow> clean_row list" where
  "cleaned num data = filter (\<lambda>d. c_artist d \<noteq> [] \<and> \<not> isNaN (c_pop d)) (map (clean num) data)"

record group_stats =
  avgPop :: real
  genre :: string
  artistPopularity :: "real number"
  trackCount :: nat

text \<open>
  The reducer of the roll-up. It reads \<open>v[0].genre\<close>, which throws on an empty array;
  an exception in a reducer ends the whole computation.
\<close>

definition reducer :: "clean_row list \<Rightarrow> error + group_stats" where
  "reducer v =
     (case v of
        [] \<Rightarrow> Inl TypeError
      | v0 # _ \<Rightarrow>
          Inr \<lparr>avgPop = nullish (d3_mean (map c_pop v)) 0,
               genre = c_genre v0,
               artistPopularity = c_artistPopularity v0,
               trackCount = length v\<rparr>)"

fun collect :: "('k \<times> (error + 'r)) list \<Rightarrow> error + ('k \<times> 'r) list" where
  "collect [] = Inr []"
| "collect ((k, Inl e) # rest) = Inl e"
| "collect ((k, Inr r) # rest) =
     (case collect rest of Inl e \<Rightarrow> Inl e | Inr rs \<Rightarrow> Inr ((k, r) # rs))"

definition grouped :: "clean_row list \<Rightarrow> error + (string \<times> group_stats) list" where
  "grouped cl = collect (rollups reducer c_artist cl)"

definition minTracks :: nat where
  "minTracks = 5"

definition top10 :: "(string \<times> group_stats) list \<Rightarrow> (string \<times> group_stats) list" where
  "top10 g =
     take 10
       (sort_with (\<lambda>a b. avgPop (snd b) - avgPop (snd a))
          (filter (\<lambda>d. minTracks \<le> trackCount (snd d)) g))"

text \<open>The bars of the chart for a data file: the selection applied to the groups.\<close>

definition bar_top10 ::
  "(string \<Rightarrow> real number) \<Rightarrow> raw_row list \<Rightarrow> error + (string \<times> group_stats) list" where
  "bar_top10 num data =
     (case grouped (cleaned num data) of Inl e \<Rightarrow> Inl e | Inr g \<Rightarrow> Inr (top10 g))"

section \<open>Heat map: rows, genres, years and grid\<close>

text \<open>
  A row after the \<open>map\<close> step has a year that \<open>parseInt\<close> produced and a popularity that
  \<open>Number\<close> produced, either of which may be \<open>NaN\<close>. The filter keeps the rows whose
  numbers are finite, whose year is in range and whose genre is not empty; from there on
  the numbers of a row are finite, which the type of \<open>Row\<close> records.
\<close>

record mapped_row =
  m_year :: "int number"
  m_genre :: string
  m_pop :: "real number"

record Row =
  r_year :: int
  r_genre :: string
  r_pop :: real

definition valid_rows :: "mapped_row list \<Rightarrow> Row list" where
  "valid_rows mapped =
     concat (map (\<lambda>d.
       if isFinite (m_year d) \<and> isFinite (m_pop d) \<and> ge (m_year d) MIN_YEAR
          \<and> le (m_year d) MAX_YEAR \<and> 0 < length (m_genre d)
       then (case (m_year d, m_pop d) of
               (Num y, Num p) \<Rightarrow> [\<lparr>r_year = y, r_genre = m_genre d, r_pop = p\<rparr>]
             | _ \<Rightarrow> [])
       else []) mapped)"

definition genreCounts :: "Row list \<Rightarrow> (string \<times> nat) list" where
  "genreCounts rows =
     sort_with (\<lambda>a b. real (snd b) - real (snd a)) (rollups length r_genre rows)"

definition TOP_GENRES :: nat where
  "TOP_GENRES = 12"

definition genres :: "Row list \<Rightarrow> string list" where
  "genres rows = map fst (take TOP_GENRES (genreCounts rows))"

definition filtered :: "Row list \<Rightarrow> Row list" where
  "filtered rows = filter (\<lambda>r. r_genre r \<in> set (genres rows)) rows"

text \<open>\<open>Array.from(new Set(xs))\<close>: the elements of \<open>xs\<close>, each once, in the order of their
  first occurrence.\<close>

fun add_all :: "'a list \<Rightarrow> 'a list \<Rightarrow> 'a list" where
  "add_all seen [] = seen"
| "add_all seen (x # xs) = add_all (if x \<in> set seen then seen else seen @ [x]) xs"

definition new_Set :: "'a list \<Rightarrow> 'a list" where
  "new_Set xs = add_all [] xs"

definition years :: "Row list \<Rightarrow> int list" where
  "years rows =
     sort_with (\<lambda>a b. real_of_int a - real_of_int b) (new_Set (map r_year (filtered rows)))"

text \<open>The mean popularity by year and genre; \<open>d3.mean(...) ?? NaN\<close>.\<close>

definition byYearGenre :: "Row list \<Rightarrow> (int \<times> (string \<times> real number) list) list" where
  "byYearGenre rows =
     rollups2 (\<lambda>v. case d3_mean (map (\<lambda>d. Num (r_pop d)) v) of None \<Rightarrow> NaN | Some m \<Rightarrow> Num m)
       r_year r_genre (filtered rows)"

text \<open>
  The key of the value map is the template string \<open>`${yr}||${g}`\<close>. An integer is
  written in decimal, with a minus sign when it is negative.
\<close>

definition digit_char :: "nat \<Rightarrow> char" where
  "digit_char d = char_of (48 + d)"

function digits :: "nat \<Rightarrow> string" where
  "digits n = (if n < 10 then [digit_char n] else digits (n div 10) @ [digit_char (n mod 10)])"
  by pat_completeness auto
termination
  by (relation "measure (\<lambda>n. n)") auto

declare digits.simps [simp del]

definition int_to_string :: "int \<Rightarrow> string" where
  "int_to_string i = (if i < 0 then CHR ''-'' # digits (nat (- i)) else digits (nat i))"

definition cell_key :: "int \<Rightarrow> string \<Rightarrow> string" where
  "cell_key yr g = int_to_string yr @ ''||'' @ g"

definition valueMap ::
  "(int \<times> (string \<times> real number) list) list \<Rightarrow> (string \<rightharpoonup> real number)" where
  "valueMap byYG =
     foldl (\<lambda>m (yr, inner). foldl (\<lambda>m (g, avg). m(cell_key yr g \<mapsto> avg)) m inner)
       Map.empty byYG"

record GridCell =
  cell_year :: int
  cell_genre :: string
  cell_value :: "real number option"

definition grid :: "Row list \<Rightarrow> GridCell list" where
  "grid rows =
     concat (map (\<lambda>yr. map (\<lambda>g. \<lparr>cell_year = yr, cell_genre = g,
                                  cell_value = valueMap (byYearGenre rows) (cell_key yr g)\<rparr>)
                       (genres rows))
                 (years rows))"

section \<open>Heat map: where the scale draws a year\<close>

text \<open>
  The band scale of d3 for \<open>n\<close> years: the first band starts at
  \<open>start + (stop - start - step * (n - paddingInner)) * align\<close> with \<open>align = 0.5\<close>, the
  bands follow one step apart, and a band is \<open>step * (1 - paddingInner)\<close> wide. \<open>x(year)\<close>
  is the start of the band of a year of the domain and \<open>undefined\<close> for any other year.
\<close>

fun index_of :: "'a list \<Rightarrow> 'a \<Rightarrow> nat option" where
  "index_of [] y = None"
| "index_of (x # xs) y = (if x = y then Some 0 else map_option Suc (index_of xs y))"

definition x_start :: "nat \<Rightarrow> real" where
  "x_start n = margin_left + (range_stop - margin_left - x_step n * (real n - 0.05)) * 0.5"

definition x_scale :: "int list \<Rightarrow> int \<Rightarrow> real option" where
  "x_scale ys y =
     (case index_of ys y of
        None \<Rightarrow> None
      | Some i \<Rightarrow> Some (x_start (length ys) + x_step (length ys) * real i))"

definition bandwidth :: "nat \<Rightarrow> real" where
  "bandwidth n = x_step n * (1 - 0.05)"

text \<open>
  The position of the cursor line for the revealed year:
  \<open>x(currentYear) != null ? x(currentYear) + x.bandwidth() / 2 : margin.left\<close>.
\<close>

definition cursorX :: "int list \<Rightarrow> int \<Rightarrow> real" where
  "cursorX ys currentYear =
     (case x_scale ys currentYear of
        None \<Rightarrow> margin_left
      | Some x \<Rightarrow> x + bandwidth (length ys) / 2)"

section \<open>Dashboard: the selection and the handlers on screen\<close>

text \<open>
  \<open>Layout\<close> holds the selection. The effect of the bar chart depends on the selection:
  each run of the effect starts a load of the data file, and when a load resolves, the
  bars are rebuilt with click handlers that close over the selection of that run. Until
  then the bars on screen keep the handlers of an earlier run. The state records the
  selection, the selection that the handlers on screen closed over (none before the
  first load resolves) and the selections of the runs whose load is pending.

  A click is on a bar on screen, whose keys are \<open>bars\<close>; it sets the selection to the
  value the handler computes, and a changed selection runs the effect again. \<open>Loaded i\<close>
  is the resolution of the pending load at position \<open>i\<close>.
\<close>

record dashboard =
  selected :: "string option"
  handlers :: "string option option"
  pending :: "string option list"

datatype event = Click string | Loaded nat

definition mounted :: dashboard where
  "mounted = \<lparr>selected = initial_selectedArtist, handlers = None,
              pending = [initial_selectedArtist]\<rparr>"

fun step :: "string list \<Rightarrow> dashboard \<Rightarrow> event \<Rightarrow> dashboard" where
  "step bars s (Loaded i) =
     (if i < length (pending s)
      then s\<lparr>handlers := Some (pending s ! i),
             pending := take i (pending s) @ drop (Suc i) (pending s)\<rparr>
      else s)"
| "step bars s (Click a) =
     (case handlers s of
        None \<Rightarrow> s
      | Some closed_over \<Rightarrow>
          if a \<in> set bars
          then (if click closed_over a = selected s then s
                else s\<lparr>selected := click closed_over a,
                       pending := pending s @ [click closed_over a]\<rparr>)
          else s)"

definition run :: "string list \<Rightarrow> event list \<Rightarrow> dashboard" where
  "run bars evs = foldl (step bars) mounted evs"

text \<open>The keys of the bars that a data file puts on screen.\<close>

definition bar_keys :: "(string \<Rightarrow> real number) \<Rightarrow> raw_row list \<Rightarrow> string list" where
  "bar_keys num data = (case bar_top10 num data of Inl e \<Rightarrow> [] | Inr bars \<Rightarrow> map fst bars)"

section \<open>Sample inputs\<close>

text \<open>
  A conversion of strings to numbers that knows the numerals of the sample rows, and rows
  of the data file for the evaluations below.
\<close>

definition sample_num :: "string \<Rightarrow> real number" where
  "sample_num s =
     (if s = ''3'' then Num 3
      else if s = ''60'' then Num 60
      else if s = ''65'' then Num 65
      else if s = ''70'' then Num 70
      else if s = ''80'' then Num 80
      else if s = ''90'' then Num 90
      else NaN)"

definition track :: "string \<Rightarrow> string \<Rightarrow> raw_row" where
  "track a p = \<lparr>artist_name = Some a, artists = None, artist_genres = Some ''pop'',
       artist_popularity = Some ''90'', track_popularity = Some p, popularity = None,
       track_duration_min = Some ''3''\<rparr>"

text \<open>Three tracks of artist \<open>X\<close> and two of artist \<open>Y\<close>.\<close>

definition tracks_XY :: "raw_row list" where
  "tracks_XY = [track ''X'' ''80'', track ''X'' ''90'', track ''X'' ''70'',
                track ''Y'' ''60'', track ''Y'' ''65'']"

text \<open>Five tracks of artist \<open>X\<close>, which make \<open>X\<close> a bar of the chart.\<close>

definition tracks_X5 :: "raw_row list" where
  "tracks_X5 = [track ''X'' ''80'', track ''X'' ''90'', track ''X'' ''70'',
                track ''X'' ''60'', track ''X'' ''65'']"

text \<open>Fifteen groups of five tracks or more, the mean popularity rising with the index.\<close>

definition groups15 :: "(string \<times> group_stats) list" where
  "groups15 =
     map (\<lambda>i. (replicate (Suc i) (CHR ''a''),
               \<lparr>avgPop = real i, genre = ''pop'', artistPopularity = Num 0,
                trackCount = 5 + i\<rparr>)) [0..<15]"

text \<open>A track of artist \<open>Foo\<close> whose name stands only in the \<open>artists\<close> column.\<close>

definition row_Foo :: raw_row where
  "row_Foo = \<lparr>artist_name = Some [], artists = Some ''Foo'', artist_genres = Some ''pop'',
       artist_popularity = Some ''90'', track_popularity = Some ''80'', popularity = None,
       track_duration_min = Some ''3''\<rparr>"

text \<open>Rows of the heat map in the years 2000, 2001 and 2003, of two genres.\<close>

definition rows_3y :: "Row list" where
  "rows_3y = [\<lparr>r_year = 2001, r_genre = ''rock'', r_pop = 60\<rparr>,
              \<lparr>r_year = 2000, r_genre = ''pop'', r_pop = 50\<rparr>,
              \<lparr>r_year = 2003, r_genre = ''pop'', r_pop = 70\<rparr>,
              \<lparr>r_year = 2000, r_genre = ''pop'', r_pop = 80\<rparr>]"

text \<open>A data file of the heat map with a single track, of the year 2000.\<close>

definition mapped_2000 :: "mapped_row list" where
  "mapped_2000 = [\<lparr>m_year = Num 2000, m_genre = ''pop'', m_pop = Num 50\<rparr>]"

definition row_A :: raw_row where
  "row_A = \<lparr>artist_name = Some ''A'', artists = None,
       artist_genres = Some ''pop, dance pop'', artist_popularity = Some ''90'',
       track_popularity = Some ''80'', popularity = None, track_duration_min = Some ''3''\<rparr>"

section \<open>Verified properties\<close>

subsection \<open>Genre extractor\<close>

lemma replaceAll_empty_filter: "replaceAll pat [] s = filter (\<lambda>c. c \<noteq> pat) s"
  by (induction s) simp_all

lemma split_from_join:
  "concat (map (\<lambda>p. CHR '','' # p) (split_from (CHR '','') cur s)) = CHR '','' # cur @ s"
  by (induction s arbitrary: cur) simp_all

lemma split_from_no_sep: "sep \<notin> set cur \<Longrightarrow> p \<in> set (split_from sep cur s) \<Longrightarrow> sep \<notin> set p"
proof (induction s arbitrary: cur)
  case Nil
  then show ?case by simp
next
  case (Cons c cs)
  show ?case
  proof (cases "c = sep")
    case True
    with Cons.prems have "p = cur \<or> p \<in> set (split_from sep [] cs)" by simp
    then show ?thesis
      using Cons.prems(1) Cons.IH [of "[]"] by auto
  next
    case False
    with Cons.prems have "p \<in> set (split_from sep (cur @ [c]) cs)" by simp
    moreover from False Cons.prems(1) have "sep \<notin> set (cur @ [c])" by auto
    ultimately show ?thesis by (rule Cons.IH [rotated])
  qed
qed

lemma split_join: "concat (map (\<lambda>p. CHR '','' # p) (split (CHR '','') s)) = CHR '','' # s"
  by (simp add: split_def split_from_join)

lemma split_no_sep: "p \<in> set (split sep s) \<Longrightarrow> sep \<notin> set p"
  unfolding split_def by (rule split_from_no_sep [of sep "[]"]) simp_all

lemma trim_Nil: "trim [] = []"
  by (simp add: trim_def)

text \<open>
  Claim C1. For every input, \<open>pickPrimaryGenre\<close> computes what the specification's
  algorithm describes: the characters \<open>[\<close>, \<open>]\<close>, \<open>'\<close> and \<open>"\<close> are stripped, the rest is
  split on commas, each part is trimmed, empty parts are dropped and the first part left is
  returned, \<open>"Unknown"\<close> standing in for an absent input and for an input that leaves no
  part. The three list shapes of the specification give \<open>"pop"\<close>; \<open>undefined\<close> and the
  empty string give \<open>"Unknown"\<close>.
\<close>

theorem pickPrimaryGenre_spec:
  \<open>pickPrimaryGenre raw = extractPrimaryGenre_spec raw
   \<and> pickPrimaryGenre (Some ''['pop', 'dance pop']'') = ''pop''
   \<and> pickPrimaryGenre (Some ''["pop","dance pop"]'') = ''pop''
   \<and> pickPrimaryGenre (Some ''pop, dance pop'') = ''pop''
   \<and> pickPrimaryGenre None = ''Unknown''
   \<and> pickPrimaryGenre (Some '''') = ''Unknown''\<close>
proof -
  have general: "pickPrimaryGenre raw = extractPrimaryGenre_spec raw"
  proof (cases raw)
    case None
    then show ?thesis
      by (simp add: pickPrimaryGenre_def extractPrimaryGenre_spec_def)
  next
    case (Some s)
    have strip: "replaceAll (CHR 0x22) []
                   (replaceAll (CHR 0x27) []
                     (replaceAll (CHR '']'') [] (replaceAll (CHR ''['') [] s)))
                 = filter (\<lambda>c. c \<notin> set stripped_chars) s"
      by (simp add: replaceAll_empty_filter stripped_chars_def conj_commute conj_left_commute)
    show ?thesis
    proof (cases "s = []")
      case True
      with Some show ?thesis
        by (simp add: pickPrimaryGenre_def extractPrimaryGenre_spec_def split_def trim_Nil)
    next
      case False
      with Some show ?thesis
        by (simp add: pickPrimaryGenre_def extractPrimaryGenre_spec_def Let_def strip)
    qed
  qed
  have e1: \<open>pickPrimaryGenre (Some ''['pop', 'dance pop']'') = ''pop''\<close>
    by (simp add: pickPrimaryGenre_def split_def trim_def isWhiteSpace_def)
  have e2: \<open>pickPrimaryGenre (Some ''["pop","dance pop"]'') = ''pop''\<close>
    by (simp add: pickPrimaryGenre_def split_def trim_def isWhiteSpace_def)
  have e3: \<open>pickPrimaryGenre (Some ''pop, dance pop'') = ''pop''\<close>
    by (simp add: pickPrimaryGenre_def split_def trim_def isWhiteSpace_def)
  have e4: "pickPrimaryGenre None = ''Unknown''"
    by (simp add: pickPrimaryGenre_def)
  have e5: "pickPrimaryGenre (Some '''') = ''Unknown''"
    by (simp add: pickPrimaryGenre_def)
  from general e1 e2 e3 e4 e5 show ?thesis by blast
qed

subsection \<open>Stream chart: buckets and bands\<close>

text \<open>
  Claim C2. A track whose duration is valid (between 0 and 15 minutes, both excluded) and
  whose popularity is finite gets a duration label that is one of the five fixed buckets
  and a band that is one of the three fixed bands. The labels are pairwise different, and
  each label is returned exactly on its interval: buckets are closed on the left and open
  on the right, the last one unbounded; \<open>Low\<close> is below 40, \<open>Medium\<close> from 40 up to but
  excluding 70 (that is 40 to 69 for an integral score), \<open>High\<close> from 70. The boundary
  values of the specification are included.
\<close>

theorem duration_popularity_buckets:
  assumes "0 < m" and "m < 15"
  shows "durationLabel (Num m) \<in> set durations \<and> popBand (Num p) \<in> set bands
    \<and> distinct durations \<and> length durations = 5 \<and> distinct bands \<and> length bands = 3
    \<and> (durationLabel (Num m) = ''0-2'' \<longleftrightarrow> 0 \<le> m \<and> m < 2)
    \<and> (durationLabel (Num m) = ''2-3'' \<longleftrightarrow> 2 \<le> m \<and> m < 3)
    \<and> (durationLabel (Num m) = ''3-4'' \<longleftrightarrow> 3 \<le> m \<and> m < 4)
    \<and> (durationLabel (Num m) = ''4-5'' \<longleftrightarrow> 4 \<le> m \<and> m < 5)
    \<and> (durationLabel (Num m) = ''5+'' \<longleftrightarrow> 5 \<le> m)
    \<and> (popBand (Num p) = ''Low'' \<longleftrightarrow> p < 40)
    \<and> (popBand (Num p) = ''Medium'' \<longleftrightarrow> 40 \<le> p \<and> p < 70)
    \<and> (popBand (Num p) = ''High'' \<longleftrightarrow> 70 \<le> p)
    \<and> (p \<in> \<int> \<longrightarrow> (popBand (Num p) = ''Medium'' \<longleftrightarrow> 40 \<le> p \<and> p \<le> 69))
    \<and> durationLabel (Num 1.9) = ''0-2'' \<and> durationLabel (Num 2.0) = ''2-3''
    \<and> durationLabel (Num 5.5) = ''5+''
    \<and> popBand (Num 39.9) = ''Low'' \<and> popBand (Num 40.0) = ''Medium''
    \<and> popBand (Num 69.9) = ''Medium'' \<and> popBand (Num 70.0) = ''High''"
proof -
  have int_lt: "p < 70 \<longleftrightarrow> p \<le> 69" if "p \<in> \<int>"
  proof -
    from that obtain k :: int where k: "p = of_int k" by (auto elim: Ints_cases)
    have "(of_int k :: real) < 70 \<longleftrightarrow> k < 70" by linarith
    moreover have "(of_int k :: real) \<le> 69 \<longleftrightarrow> k \<le> 69" by linarith
    ultimately show ?thesis using k by auto
  qed
  have d: "durationLabel (Num m) \<in> set durations"
    by (simp add: durationLabel_def durations_def lt_def)
  have b: "popBand (Num p) \<in> set bands"
    by (simp add: popBand_def bands_def lt_def)
  have l: "distinct durations \<and> length durations = 5 \<and> distinct bands \<and> length bands = 3"
    by (simp add: durations_def bands_def)
  have d1: "durationLabel (Num m) = ''0-2'' \<longleftrightarrow> 0 \<le> m \<and> m < 2"
    using assms by (simp add: durationLabel_def lt_def)
  have d2: "durationLabel (Num m) = ''2-3'' \<longleftrightarrow> 2 \<le> m \<and> m < 3"
    by (auto simp add: durationLabel_def lt_def)
  have d3: "durationLabel (Num m) = ''3-4'' \<longleftrightarrow> 3 \<le> m \<and> m < 4"
    by (auto simp add: durationLabel_def lt_def)
  have d4: "durationLabel (Num m) = ''4-5'' \<longleftrightarrow> 4 \<le> m \<and> m < 5"
    by (auto simp add: durationLabel_def lt_def)
  have d5: "durationLabel (Num m) = ''5+'' \<longleftrightarrow> 5 \<le> m"
    by (auto simp add: durationLabel_def lt_def)
  have p1: "popBand (Num p) = ''Low'' \<longleftrightarrow> p < 40"
    by (auto simp add: popBand_def lt_def)
  have p2: "popBand (Num p) = ''Medium'' \<longleftrightarrow> 40 \<le> p \<and> p < 70"
    by (auto simp add: popBand_def lt_def)
  have p3: "popBand (Num p) = ''High'' \<longleftrightarrow> 70 \<le> p"
    by (auto simp add: popBand_def lt_def)
  have p4: "p \<in> \<int> \<longrightarrow> (popBand (Num p) = ''Medium'' \<longleftrightarrow> 40 \<le> p \<and> p \<le> 69)"
    using p2 int_lt by blast
  have ex: "durationLabel (Num 1.9) = ''0-2'' \<and> durationLabel (Num 2.0) = ''2-3''
    \<and> durationLabel (Num 5.5) = ''5+''
    \<and> popBand (Num 39.9) = ''Low'' \<and> popBand (Num 40.0) = ''Medium''
    \<and> popBand (Num 69.9) = ''Medium'' \<and> popBand (Num 70.0) = ''High''"
    by (simp add: durationLabel_def popBand_def lt_def)
  from d b l d1 d2 d3 d4 d5 p1 p2 p3 p4 ex show ?thesis by blast
qed

text \<open>The theorem at a track of 3.5 minutes and popularity 55.\<close>

theorem duration_popularity_buckets_witness:
  "(0::real) < 3.5 \<and> (3.5::real) < 15 \<and> (55::real) \<in> \<int>
   \<and> durationLabel (Num 3.5) = ''3-4'' \<and> popBand (Num 55) = ''Medium''"
proof -
  have h1: "(0::real) < 3.5" and h2: "(3.5::real) < 15" by simp_all
  have h3: "(55::real) \<in> \<int>" by simp
  from duration_popularity_buckets [OF h1 h2, of 55] h3
  have "durationLabel (Num 3.5) = ''3-4''" and "popBand (Num 55) = ''Medium''"
    by simp_all
  with h1 h2 h3 show ?thesis by blast
qed

subsection \<open>Grouping and sorting\<close>

text \<open>
  The groups of \<open>d3.group\<close>: the keys appear once each, in the order in which they are
  first seen, and the group of a key holds the values with that key, in their order.
\<close>

lemma add_to_group_keys:
  "map fst (add_to_group k v g) = (if k \<in> fst ` set g then map fst g else map fst g @ [k])"
  by (induction g) (auto split: if_splits)

lemma add_to_group_map_of:
  "map_of (add_to_group k v g) =
     (map_of g)(k \<mapsto> (case map_of g k of None \<Rightarrow> [v] | Some vs \<Rightarrow> vs @ [v]))"
  by (induction g) (auto simp add: fun_eq_iff)

lemma group_snoc: "group f (xs @ [x]) = add_to_group (f x) x (group f xs)"
  by (simp add: group_def)

lemma group_Nil: "group f [] = []"
  by (simp add: group_def)

lemma group_keys: "map fst (group f xs) = rev (remdups (rev (map f xs)))"
proof (induction xs rule: rev_induct)
  case Nil
  show ?case by (simp add: group_Nil)
next
  case (snoc x xs)
  have "fst ` set (group f xs) = f ` set xs"
    using arg_cong [OF snoc, of set] by simp
  then show ?case
    by (simp add: group_snoc add_to_group_keys snoc)
qed

lemma group_keys_distinct: "distinct (map fst (group f xs))"
  by (simp add: group_keys)

lemma group_keys_set: "fst ` set (group f xs) = f ` set xs"
  using arg_cong [OF group_keys, of set f xs] by simp

lemma group_map_of:
  "map_of (group f xs) k = (if k \<in> f ` set xs then Some (filter (\<lambda>x. f x = k) xs) else None)"
proof (induction xs arbitrary: k rule: rev_induct)
  case Nil
  show ?case by (simp add: group_Nil)
next
  case (snoc x xs)
  show ?case
    by (auto simp add: group_snoc add_to_group_map_of snoc filter_empty_conv image_iff
        dest: sym)
qed

lemma group_member:
  "(k, vs) \<in> set (group f xs) \<longleftrightarrow> k \<in> f ` set xs \<and> vs = filter (\<lambda>x. f x = k) xs"
proof -
  have "(k, vs) \<in> set (group f xs) \<longleftrightarrow> map_of (group f xs) k = Some vs"
    by (simp add: group_keys_distinct)
  then show ?thesis by (auto simp add: group_map_of)
qed

lemma group_nonempty: "(k, vs) \<in> set (group f xs) \<Longrightarrow> vs \<noteq> []"
  by (auto simp add: group_member filter_empty_conv)

text \<open>
  A comparison that orders by a key sorts as the library's stable insertion sort by that
  key does.
\<close>

lemma insert_by_insort_key:
  assumes "\<And>x y. compare x y \<le> 0 \<longleftrightarrow> f x \<le> f y"
  shows "insert_by compare x ys = insort_key f x ys"
  by (induction ys) (simp_all add: assms)

lemma sort_with_sort_key:
  assumes "\<And>x y. compare x y \<le> 0 \<longleftrightarrow> f x \<le> f y"
  shows "sort_with compare xs = sort_key f xs"
  by (induction xs) (simp_all add: sort_with_def insert_by_insort_key [of compare f, OF assms])

subsection \<open>Bar chart: aggregation by artist\<close>

lemma reducer_Cons:
  "reducer (m # ms) =
     Inr \<lparr>avgPop = nullish (d3_mean (map c_pop (m # ms))) 0, genre = c_genre m,
          artistPopularity = c_artistPopularity m, trackCount = length (m # ms)\<rparr>"
  by (simp add: reducer_def)

lemma collect_all_Inr:
  "\<forall>p \<in> set g. f (snd p) = Inr (h (snd p)) \<Longrightarrow>
     collect (map (\<lambda>(k, vs). (k, f vs)) g) = Inr (map (\<lambda>(k, vs). (k, h vs)) g)"
  by (induction g) auto

lemma d3_mean_numbers:
  "d3_mean (map Num ps) = (if ps = [] then None else Some (sum_list ps / real (length ps)))"
proof -
  have "concat (map (\<lambda>v. case v of NaN \<Rightarrow> [] | Num x \<Rightarrow> [x]) (map Num ps)) = ps"
    by (induction ps) simp_all
  then show ?thesis by (simp add: d3_mean_def)
qed

lemma numbers_of_rows:
  assumes "\<And>c. c \<in> set cs \<Longrightarrow> \<not> isNaN (c_pop c)"
  shows "\<exists>ps. map c_pop cs = map Num ps"
  using assms
proof (induction cs)
  case Nil
  show ?case by simp
next
  case (Cons c cs)
  then obtain ps where ps: "map c_pop cs = map Num ps" by auto
  from Cons.prems [of c] obtain p where "c_pop c = Num p"
    by (cases "c_pop c") (auto simp add: isNaN_def)
  with ps have "map c_pop (c # cs) = map Num (p # ps)" by simp
  then show ?case by blast
qed

lemma cleaned_member:
  "c \<in> set (cleaned num data) \<Longrightarrow>
     c_artist c \<noteq> [] \<and> \<not> isNaN (c_pop c) \<and> (\<exists>d \<in> set data. c = clean num d)"
  by (auto simp add: cleaned_def)

lemma grouped_eq:
  "grouped cl =
     Inr (map (\<lambda>(k, vs). (k, \<lparr>avgPop = nullish (d3_mean (map c_pop vs)) 0,
                                   genre = c_genre (hd vs),
                                   artistPopularity = c_artistPopularity (hd vs),
                                   trackCount = length vs\<rparr>))
            (group c_artist cl))"
proof -
  let ?h = "\<lambda>vs. \<lparr>avgPop = nullish (d3_mean (map c_pop vs)) 0, genre = c_genre (hd vs),
          artistPopularity = c_artistPopularity (hd vs), trackCount = length vs\<rparr>"
  have "reducer (snd p) = Inr (?h (snd p))" if "p \<in> set (group c_artist cl)" for p
  proof -
    from that have "(fst p, snd p) \<in> set (group c_artist cl)" by simp
    then have "snd p \<noteq> []" by (rule group_nonempty)
    then obtain m ms where "snd p = m # ms" by (cases "snd p") auto
    then show ?thesis by (simp add: reducer_Cons)
  qed
  then have "\<forall>p \<in> set (group c_artist cl). reducer (snd p) = Inr (?h (snd p))" by blast
  then show ?thesis
    unfolding grouped_def rollups_def by (rule collect_all_Inr)
qed

text \<open>
  Claim C7, as amended. The aggregation by artist never meets an empty group, so the
  reducer never fails. The groups come in the order in which their artists are first
  seen. For every group the reducer returns the arithmetic mean of the track
  popularities of its members, the number of members, and the \<open>genre\<close> and
  \<open>artistPopularity\<close> fields of the first member. That \<open>genre\<close> field is the
  \<open>artist_genres\<close> string of the row as it stands in the file, or \<open>"Unknown"\<close> when
  that is absent or empty: the bar chart does not run the genre extractor.
\<close>

theorem by_artist_groups:
  "\<exists>g. grouped (cleaned num data) = Inr g
     \<and> map fst g = rev (remdups (rev (map c_artist (cleaned num data))))
     \<and> (\<forall>(a, st) \<in> set g. \<exists>m ms ps.
           filter (\<lambda>c. c_artist c = a) (cleaned num data) = m # ms
           \<and> map c_pop (m # ms) = map Num ps
           \<and> avgPop st = sum_list ps / real (length ps)
           \<and> trackCount st = length (m # ms)
           \<and> genre st = c_genre m
           \<and> artistPopularity st = c_artistPopularity m
           \<and> (\<exists>d \<in> set data. m = clean num d
                 \<and> genre st = or_str (artist_genres d) ''Unknown''))"
proof -
  let ?cl = "cleaned num data"
  let ?h = "\<lambda>vs. \<lparr>avgPop = nullish (d3_mean (map c_pop vs)) 0, genre = c_genre (hd vs),
          artistPopularity = c_artistPopularity (hd vs), trackCount = length vs\<rparr>"
  let ?g = "map (\<lambda>(k, vs). (k, ?h vs)) (group c_artist ?cl)"
  have g: "grouped ?cl = Inr ?g" by (rule grouped_eq)
  have keys: "map fst ?g = rev (remdups (rev (map c_artist ?cl)))"
  proof -
    have "map fst ?g = map fst (group c_artist ?cl)" by (simp add: case_prod_unfold)
    then show ?thesis by (simp only: group_keys)
  qed
  have each: "\<exists>m ms ps.
           filter (\<lambda>c. c_artist c = a) ?cl = m # ms
           \<and> map c_pop (m # ms) = map Num ps
           \<and> avgPop st = sum_list ps / real (length ps)
           \<and> trackCount st = length (m # ms)
           \<and> genre st = c_genre m
           \<and> artistPopularity st = c_artistPopularity m
           \<and> (\<exists>d \<in> set data. m = clean num d
                 \<and> genre st = or_str (artist_genres d) ''Unknown'')"
    if "(a, st) \<in> set ?g" for a st
  proof -
    from that obtain vs where vs: "(a, vs) \<in> set (group c_artist ?cl)" and st: "st = ?h vs"
      by auto
    from vs have f: "vs = filter (\<lambda>c. c_artist c = a) ?cl" by (simp add: group_member)
    from vs have "vs \<noteq> []" by (rule group_nonempty)
    then obtain m ms where ms: "vs = m # ms" by (cases vs) auto
    have sub: "c \<in> set ?cl" if "c \<in> set vs" for c using that f by simp
    then have "\<exists>ps. map c_pop vs = map Num ps"
      by (intro numbers_of_rows) (auto dest: cleaned_member)
    then obtain ps where ps: "map c_pop vs = map Num ps" by blast
    from ps ms have "ps \<noteq> []" by auto
    with ps have avg: "avgPop st = sum_list ps / real (length ps)"
      by (simp add: st d3_mean_numbers nullish_def)
    from sub [of m] ms obtain d where d: "d \<in> set data" "m = clean num d"
      by (auto dest: cleaned_member)
    then have "c_genre m = or_str (artist_genres d) ''Unknown''" by (simp add: clean_def)
    with d ms ps avg st f show ?thesis by auto
  qed
  from g keys each show ?thesis by blast
qed

text \<open>One row whose genre field lists two genres.\<close>

lemma grouped_row_A:
  "grouped (cleaned sample_num [row_A])
   = Inr [(''A'', \<lparr>avgPop = 80, genre = ''pop, dance pop'', artistPopularity = Num 90,
                      trackCount = 1\<rparr>)]"
  by (simp add: grouped_def rollups_def group_def cleaned_def clean_def row_A_def reducer_def
      d3_mean_def or_str_def or_opt_def truthy_def nullish_opt_def nullish_def isNaN_def
      sample_num_def)

text \<open>
  The theorem at the five sample tracks: the aggregation returns, with the group of \<open>X\<close>
  before the group of \<open>Y\<close>.
\<close>

theorem by_artist_groups_witness:
  "\<exists>g. grouped (cleaned sample_num tracks_XY) = Inr g \<and> map fst g = [''X'', ''Y'']"
proof -
  from by_artist_groups [of sample_num tracks_XY]
  obtain g where g: "grouped (cleaned sample_num tracks_XY) = Inr g"
    and k: "map fst g = rev (remdups (rev (map c_artist (cleaned sample_num tracks_XY))))"
    by blast
  have "rev (remdups (rev (map c_artist (cleaned sample_num tracks_XY)))) = [''X'', ''Y'']"
    by (simp add: cleaned_def clean_def tracks_XY_def track_def or_str_def or_opt_def
        truthy_def nullish_opt_def isNaN_def sample_num_def)
  with g k show ?thesis by simp
qed

text \<open>
  The claim as written (the genre of a group is the extractor's primary genre of a row)
  fails at the sample row: the group carries \<open>"pop, dance pop"\<close>, the extractor gives
  \<open>"pop"\<close>.
\<close>

theorem by_artist_genre_counterexample:
  "\<not> (\<forall>num data g a st. grouped (cleaned num data) = Inr g \<longrightarrow> (a, st) \<in> set g \<longrightarrow>
        (\<exists>d \<in> set data. genre st = pickPrimaryGenre (artist_genres d)))"
proof
  assume a: "\<forall>num data g a st. grouped (cleaned num data) = Inr g \<longrightarrow> (a, st) \<in> set g \<longrightarrow>
        (\<exists>d \<in> set data. genre st = pickPrimaryGenre (artist_genres d))"
  have "\<exists>d \<in> set [row_A]. genre \<lparr>avgPop = 80, genre = ''pop, dance pop'',
      artistPopularity = Num 90, trackCount = 1\<rparr> = pickPrimaryGenre (artist_genres d)"
    by (rule a [rule_format, OF grouped_row_A]) simp
  then have "pickPrimaryGenre (Some ''pop, dance pop'') = ''pop, dance pop''"
    by (simp add: row_A_def)
  then show False
    by (simp add: pickPrimaryGenre_def split_def trim_def isWhiteSpace_def)
qed

subsection \<open>Bar chart: selection of the artists\<close>

lemma sort_by_avgPop:
  "sort_with (\<lambda>a b. avgPop (snd b) - avgPop (snd a)) xs
   = sort_key (\<lambda>d. - avgPop (snd d)) xs"
  by (rule sort_with_sort_key) simp

lemma top10_eq:
  "top10 g = take 10 (sort_key (\<lambda>d. - avgPop (snd d))
                       (filter (\<lambda>d. 5 \<le> trackCount (snd d)) g))"
  by (simp add: top10_def sort_by_avgPop minTracks_def)

text \<open>The groups of the five sample tracks: three for \<open>X\<close>, two for \<open>Y\<close>.\<close>

lemma grouped_tracks_XY:
  "grouped (cleaned sample_num tracks_XY)
   = Inr [(''X'', \<lparr>avgPop = 80, genre = ''pop'', artistPopularity = Num 90, trackCount = 3\<rparr>),
          (''Y'', \<lparr>avgPop = 125 / 2, genre = ''pop'', artistPopularity = Num 90,
                   trackCount = 2\<rparr>)]"
  by (simp add: grouped_def rollups_def group_def cleaned_def clean_def tracks_XY_def track_def
      reducer_def d3_mean_def or_str_def or_opt_def truthy_def nullish_opt_def nullish_def
      isNaN_def sample_num_def)

text \<open>
  Claim C3. The selection is the first ten of a ranking of the groups that have five
  tracks or more: the ranking holds exactly these groups, it descends in mean popularity,
  and groups of equal mean popularity stand in it in the order of the input, which for the
  groups of the aggregation is the order in which the artists are first seen. The result
  has ten groups or all the qualifying ones if they are fewer. So fifteen groups of five
  tracks or more give exactly ten, groups that all have fewer than five tracks give none,
  and the data with three rows for \<open>X\<close> and two for \<open>Y\<close> gives an empty chart.
\<close>

theorem top10_selector:
  "(\<exists>ranked. top10 g = take 10 ranked
      \<and> mset ranked = mset (filter (\<lambda>d. 5 \<le> trackCount (snd d)) g)
      \<and> sorted_wrt (\<lambda>a b. avgPop (snd b) \<le> avgPop (snd a)) ranked
      \<and> (\<forall>k. filter (\<lambda>d. avgPop (snd d) = k) ranked
             = filter (\<lambda>d. avgPop (snd d) = k) (filter (\<lambda>d. 5 \<le> trackCount (snd d)) g)))
   \<and> set (top10 g) \<subseteq> {d \<in> set g. 5 \<le> trackCount (snd d)}
   \<and> sorted_wrt (\<lambda>a b. avgPop (snd b) \<le> avgPop (snd a)) (top10 g)
   \<and> length (top10 g) = min 10 (length (filter (\<lambda>d. 5 \<le> trackCount (snd d)) g))
   \<and> (grouped cl = Inr g \<longrightarrow> map fst g = rev (remdups (rev (map c_artist cl))))
   \<and> (length g15 = 15 \<and> (\<forall>d \<in> set g15. 5 \<le> trackCount (snd d)) \<longrightarrow> length (top10 g15) = 10)
   \<and> ((\<forall>d \<in> set gs. trackCount (snd d) < 5) \<longrightarrow> top10 gs = [])
   \<and> bar_top10 sample_num tracks_XY = Inr []"
proof -
  let ?p = "\<lambda>d :: string \<times> group_stats. 5 \<le> trackCount (snd d)"
  let ?f = "\<lambda>d :: string \<times> group_stats. - avgPop (snd d)"
  let ?r = "sort_key ?f (filter ?p g)"
  have t: "top10 g = take 10 ?r" by (rule top10_eq)
  have m: "mset ?r = mset (filter ?p g)" by simp
  have "sorted (map ?f ?r)" by (rule sorted_sort_key)
  then have s: "sorted_wrt (\<lambda>a b. avgPop (snd b) \<le> avgPop (snd a)) ?r"
    by (simp add: sorted_map)
  have st: "filter (\<lambda>d. avgPop (snd d) = k) ?r = filter (\<lambda>d. avgPop (snd d) = k) (filter ?p g)"
    for k
    using sort_key_stable [of ?f "- k" "filter ?p g"] by simp
  have sub: "set (top10 g) \<subseteq> {d \<in> set g. ?p d}"
  proof -
    have "set (take 10 ?r) \<subseteq> set ?r" by (rule set_take_subset)
    then show ?thesis unfolding t by auto
  qed
  have s10: "sorted_wrt (\<lambda>a b. avgPop (snd b) \<le> avgPop (snd a)) (top10 g)"
    unfolding t using s by (rule sorted_wrt_take)
  have len: "length (top10 h) = min 10 (length (filter ?p h))" for h
    by (simp add: top10_eq min.commute)
  have order: "map fst g = rev (remdups (rev (map c_artist cl)))" if "grouped cl = Inr g"
  proof -
    from that have "g = map (\<lambda>(k, vs). (k, \<lparr>avgPop = nullish (d3_mean (map c_pop vs)) 0,
                                   genre = c_genre (hd vs),
                                   artistPopularity = c_artistPopularity (hd vs),
                                   trackCount = length vs\<rparr>)) (group c_artist cl)"
      by (simp add: grouped_eq)
    then have "map fst g = map fst (group c_artist cl)" by (simp add: case_prod_unfold)
    then show ?thesis by (simp only: group_keys)
  qed
  have fifteen: "length (top10 g15) = 10"
    if "length g15 = 15 \<and> (\<forall>d \<in> set g15. ?p d)"
  proof -
    from that have "filter ?p g15 = g15" by (simp add: filter_id_conv)
    with that show ?thesis by (simp add: len)
  qed
  have few: "top10 gs = []" if "\<forall>d \<in> set gs. trackCount (snd d) < 5"
  proof -
    from that have "filter ?p gs = []" by (auto simp add: filter_empty_conv)
    then show ?thesis by (simp add: top10_eq)
  qed
  have xy: "bar_top10 sample_num tracks_XY = Inr []"
    by (simp add: bar_top10_def grouped_tracks_XY top10_eq)
  from t m s st have "\<exists>ranked. top10 g = take 10 ranked
      \<and> mset ranked = mset (filter ?p g)
      \<and> sorted_wrt (\<lambda>a b. avgPop (snd b) \<le> avgPop (snd a)) ranked
      \<and> (\<forall>k. filter (\<lambda>d. avgPop (snd d) = k) ranked
             = filter (\<lambda>d. avgPop (snd d) = k) (filter ?p g))"
    by blast
  with sub s10 len [of g] order fifteen few xy show ?thesis by blast
qed

text \<open>
  The theorem at the fifteen sample groups and at the two groups of the sample tracks.
\<close>

theorem top10_selector_witness:
  "length groups15 = 15 \<and> length (top10 groups15) = 10
   \<and> top10 [(''X'', \<lparr>avgPop = 80, genre = ''pop'', artistPopularity = Num 90, trackCount = 3\<rparr>),
            (''Y'', \<lparr>avgPop = 125 / 2, genre = ''pop'', artistPopularity = Num 90,
                     trackCount = 2\<rparr>)] = []
   \<and> map fst [(''X'', \<lparr>avgPop = 80, genre = ''pop'', artistPopularity = Num 90, trackCount = 3\<rparr>),
            (''Y'', \<lparr>avgPop = 125 / 2, genre = ''pop'', artistPopularity = Num 90,
                     trackCount = 2\<rparr>)]
     = rev (remdups (rev (map c_artist (cleaned sample_num tracks_XY))))"
proof -
  let ?xy = "[(''X'', \<lparr>avgPop = 80, genre = ''pop'', artistPopularity = Num 90, trackCount = 3\<rparr>),
            (''Y'', \<lparr>avgPop = 125 / 2, genre = ''pop'', artistPopularity = Num 90,
                     trackCount = 2\<rparr>)]"
  have l: "length groups15 = 15" by (simp add: groups15_def)
  have a: "\<forall>d \<in> set groups15. 5 \<le> trackCount (snd d)" by (simp add: groups15_def)
  have b: "\<forall>d \<in> set ?xy. trackCount (snd d) < 5" by simp
  note th = top10_selector [of ?xy "cleaned sample_num tracks_XY" groups15 ?xy]
  from th l a have "length (top10 groups15) = 10" by blast
  moreover from th b have "top10 ?xy = []" by blast
  moreover from th grouped_tracks_XY
  have "map fst ?xy = rev (remdups (rev (map c_artist (cleaned sample_num tracks_XY))))"
    by blast
  ultimately show ?thesis using l by blast
qed

subsection \<open>The artist label in the two charts\<close>

lemma roll_Nil: "roll [] = []"
  by (simp add: roll_def rollups2_def group_def)

lemma stream_of_no_rows:
  "filteredData sel data = [] \<Longrightarrow>
     stream_roll sel num data = [] \<and> stream_table sel num data = Inr table0"
  by (simp add: stream_roll_def stream_table_def stream_rows_def processed_def roll_Nil)

lemma table0_zero: "\<forall>r \<in> set table0. \<forall>p \<in> set (snd r). snd p = 0"
  by (simp add: table0_def durations_def bands_def)

text \<open>
  Claim C10, as amended. Take a row of the data whose \<open>artist_name\<close> is absent or empty,
  whose \<open>artists\<close> column holds the non-empty name \<open>n\<close>, and whose popularity converts
  to a number. The bar chart labels the row \<open>n\<close> and counts it in the group of \<open>n\<close>.
  The stream chart, with \<open>n\<close> selected, does not keep the row. When no row of the data
  has \<open>n\<close> in \<open>artist_name\<close>, the stream chart keeps no row at all: its aggregation is
  empty and its table is the table of zeros.
\<close>

theorem fallback_artist_mismatch:
  assumes "r \<in> set data"
    and "\<not> truthy (artist_name r)"
    and "artists r = Some n"
    and "n \<noteq> []"
    and "\<not> isNaN (c_pop (clean num r))"
  shows "c_artist (clean num r) = n
    \<and> clean num r \<in> set (cleaned num data)
    \<and> (\<exists>g st. grouped (cleaned num data) = Inr g \<and> (n, st) \<in> set g)
    \<and> clean num r \<in> set (filter (\<lambda>c. c_artist c = n) (cleaned num data))
    \<and> r \<notin> set (filteredData (Some n) data)
    \<and> ((\<forall>d \<in> set data. artist_name d \<noteq> Some n) \<longrightarrow>
          filteredData (Some n) data = []
          \<and> stream_roll (Some n) num data = []
          \<and> stream_table (Some n) num data = Inr table0)
    \<and> (\<forall>row \<in> set table0. \<forall>p \<in> set (snd row). snd p = 0)"
proof -
  from assms(2,3,4) have a: "c_artist (clean num r) = n"
    by (auto simp add: clean_def or_opt_def or_str_def truthy_def)
  with assms(1,4,5) have m: "clean num r \<in> set (cleaned num data)"
    by (simp add: cleaned_def)
  with a have f: "clean num r \<in> set (filter (\<lambda>c. c_artist c = n) (cleaned num data))"
    by simp
  have g: "\<exists>g st. grouped (cleaned num data) = Inr g \<and> (n, st) \<in> set g"
  proof -
    let ?g = "map (\<lambda>(k, vs). (k, \<lparr>avgPop = nullish (d3_mean (map c_pop vs)) 0,
                                   genre = c_genre (hd vs),
                                   artistPopularity = c_artistPopularity (hd vs),
                                   trackCount = length vs\<rparr>))
            (group c_artist (cleaned num data))"
    from a m have "n \<in> c_artist ` set (cleaned num data)" by force
    then have "n \<in> fst ` set (group c_artist (cleaned num data))"
      by (simp only: group_keys_set)
    then have "n \<in> fst ` set ?g" by force
    then obtain st where "(n, st) \<in> set ?g" by force
    with grouped_eq [of "cleaned num data"] show ?thesis by blast
  qed
  from assms(2,4) have ne: "or_str (artist_name r) [] \<noteq> n"
    by (cases "artist_name r") (auto simp add: or_str_def truthy_def)
  with assms(4) have nf: "r \<notin> set (filteredData (Some n) data)"
    by (simp add: filteredData_def)
  have e: "filteredData (Some n) data = []
          \<and> stream_roll (Some n) num data = []
          \<and> stream_table (Some n) num data = Inr table0"
    if "\<forall>d \<in> set data. artist_name d \<noteq> Some n"
  proof -
    have "or_str (artist_name d) [] \<noteq> n" if "d \<in> set data" for d
      using that \<open>\<forall>d \<in> set data. artist_name d \<noteq> Some n\<close> assms(4)
      by (cases "artist_name d") (auto simp add: or_str_def)
    with assms(4) have "filteredData (Some n) data = []"
      by (simp add: filteredData_def filter_empty_conv)
    then show ?thesis by (simp add: stream_of_no_rows)
  qed
  from a m g f nf e table0_zero show ?thesis by blast
qed

text \<open>
  The theorem at the sample row of \<open>Foo\<close>, in a data file with a track of another artist.
\<close>

theorem fallback_artist_mismatch_witness:
  "row_Foo \<in> set [row_Foo, track ''Bar'' ''80'']
   \<and> \<not> truthy (artist_name row_Foo) \<and> artists row_Foo = Some ''Foo''
   \<and> \<not> isNaN (c_pop (clean sample_num row_Foo))
   \<and> c_artist (clean sample_num row_Foo) = ''Foo''
   \<and> stream_table (Some ''Foo'') sample_num [row_Foo, track ''Bar'' ''80''] = Inr table0"
proof -
  have h1: "row_Foo \<in> set [row_Foo, track ''Bar'' ''80'']" by simp
  have h2: "\<not> truthy (artist_name row_Foo)" by (simp add: row_Foo_def truthy_def)
  have h3: "artists row_Foo = Some ''Foo''" by (simp add: row_Foo_def)
  have h4: "''Foo'' \<noteq> []" by simp
  have h5: "\<not> isNaN (c_pop (clean sample_num row_Foo))"
    by (simp add: row_Foo_def clean_def nullish_opt_def sample_num_def isNaN_def)
  have h6: "\<forall>d \<in> set [row_Foo, track ''Bar'' ''80'']. artist_name d \<noteq> Some ''Foo''"
    by (simp add: row_Foo_def track_def)
  note th = fallback_artist_mismatch [OF h1 h2 h3 h4 h5]
  from th have "c_artist (clean sample_num row_Foo) = ''Foo''" by blast
  moreover from th h6
  have "stream_table (Some ''Foo'') sample_num [row_Foo, track ''Bar'' ''80''] = Inr table0"
    by blast
  ultimately show ?thesis using h1 h2 h3 h5 by blast
qed

text \<open>
  The claim as written (selecting the name of such a row always gives an empty stream
  aggregation) fails when another row has the same name in \<open>artist_name\<close>: that row is
  kept and counted.
\<close>

theorem fallback_artist_mixed_counterexample:
  "\<not> (\<forall>num data r n. r \<in> set data \<and> \<not> truthy (artist_name r) \<and> artists r = Some n
         \<and> n \<noteq> [] \<and> \<not> isNaN (c_pop (clean num r))
        \<longrightarrow> stream_roll (Some n) num data = [])"
proof
  assume a: "\<forall>num data r n. r \<in> set data \<and> \<not> truthy (artist_name r) \<and> artists r = Some n
         \<and> n \<noteq> [] \<and> \<not> isNaN (c_pop (clean num r))
        \<longrightarrow> stream_roll (Some n) num data = []"
  have "row_Foo \<in> set [row_Foo, track ''Foo'' ''80''] \<and> \<not> truthy (artist_name row_Foo)
      \<and> artists row_Foo = Some ''Foo'' \<and> ''Foo'' \<noteq> []
      \<and> \<not> isNaN (c_pop (clean sample_num row_Foo))"
    by (simp add: row_Foo_def truthy_def clean_def nullish_opt_def sample_num_def isNaN_def)
  with a have "stream_roll (Some ''Foo'') sample_num [row_Foo, track ''Foo'' ''80''] = []"
    by blast
  moreover have "stream_roll (Some ''Foo'') sample_num [row_Foo, track ''Foo'' ''80'']
      = [(''3-4'', [(''High'', 1)])]"
    by (simp add: stream_roll_def roll_def rollups2_def rollups_def group_def processed_def
        stream_rows_def filteredData_def row_Foo_def track_def or_str_def nullish_def
        nullish_opt_def sample_num_def isFinite_def gt_def lt_def durationLabel_def popBand_def)
  ultimately show False by simp
qed

subsection \<open>Heat map: the keys of the value map\<close>

text \<open>
  The decimal form of an integer has digits only, after an optional minus sign, and
  determines the integer. So the template string of a year and a genre determines both,
  whatever characters the genre has.
\<close>

lemma of_char_digit_char: "d < 10 \<Longrightarrow> of_char (digit_char d) = 48 + d"
  by (simp add: digit_char_def)

lemma digit_char_inj:
  assumes "a < 10" and "b < 10" and "digit_char a = digit_char b"
  shows "a = b"
proof -
  have "(of_char (digit_char a) :: nat) = of_char (digit_char b)"
    by (simp only: assms(3))
  then have "48 + a = 48 + b"
    by (simp only: of_char_digit_char [OF assms(1)] of_char_digit_char [OF assms(2)])
  then show ?thesis by simp
qed

lemma digit_char_not_bar: "d < 10 \<Longrightarrow> digit_char d \<noteq> CHR ''|'' \<and> digit_char d \<noteq> CHR ''-''"
proof -
  assume d: "d < 10"
  have "of_char (digit_char d) \<noteq> (of_char (CHR ''|'') :: nat)"
    and "of_char (digit_char d) \<noteq> (of_char (CHR ''-'') :: nat)"
    using d by (simp_all add: of_char_digit_char)
  then show ?thesis by (intro conjI notI) (simp_all only:)
qed

lemma digits_nonempty: "digits n \<noteq> []"
  by (subst digits.simps) simp

lemma digits_chars: "c \<in> set (digits n) \<Longrightarrow> \<exists>d<10. c = digit_char d"
proof (induction n rule: digits.induct)
  case (1 n)
  show ?case
  proof (cases "n < 10")
    case True
    with "1.prems" show ?thesis by (subst (asm) digits.simps) auto
  next
    case False
    with "1.prems" have "c \<in> set (digits (n div 10)) \<or> c = digit_char (n mod 10)"
      by (subst (asm) digits.simps) auto
    then show ?thesis
    proof
      assume "c \<in> set (digits (n div 10))"
      with False show ?thesis by (intro "1.IH") simp_all
    next
      assume "c = digit_char (n mod 10)"
      moreover have "n mod 10 < 10" by simp
      ultimately show ?thesis by blast
    qed
  qed
qed

lemma digits_no_bar: "CHR ''|'' \<notin> set (digits n)"
proof
  assume "CHR ''|'' \<in> set (digits n)"
  then have "\<exists>d<10. CHR ''|'' = digit_char d" by (rule digits_chars)
  then obtain d where d: "d < 10" and c: "CHR ''|'' = digit_char d" by (elim exE conjE)
  from digit_char_not_bar [OF d] c show False by (simp only: simp_thms)
qed

lemma digits_no_minus: "CHR ''-'' \<notin> set (digits n)"
proof
  assume "CHR ''-'' \<in> set (digits n)"
  then have "\<exists>d<10. CHR ''-'' = digit_char d" by (rule digits_chars)
  then obtain d where d: "d < 10" and c: "CHR ''-'' = digit_char d" by (elim exE conjE)
  from digit_char_not_bar [OF d] c show False by (simp only: simp_thms)
qed

lemma digits_inj: "digits n = digits m \<Longrightarrow> n = m"
proof (induction n arbitrary: m rule: digits.induct)
  case (1 n)
  show ?case
  proof (cases "n < 10")
    case n: True
    show ?thesis
    proof (cases "m < 10")
      case True
      with n "1.prems" show ?thesis
        by (simp add: digits.simps [of n] digits.simps [of m] digit_char_inj)
    next
      case False
      with n "1.prems" have "digits (m div 10) = []"
        by (simp add: digits.simps [of n] digits.simps [of m])
      then show ?thesis by (simp add: digits_nonempty)
    qed
  next
    case n: False
    show ?thesis
    proof (cases "m < 10")
      case True
      with n "1.prems" have "digits (n div 10) = []"
        by (simp add: digits.simps [of n] digits.simps [of m])
      then show ?thesis by (simp add: digits_nonempty)
    next
      case False
      with n "1.prems" have a: "digits (n div 10) = digits (m div 10)"
        and b: "digit_char (n mod 10) = digit_char (m mod 10)"
        by (simp_all add: digits.simps [of n] digits.simps [of m])
      from n a have "n div 10 = m div 10" by (intro "1.IH") simp_all
      moreover from b have "n mod 10 = m mod 10" by (intro digit_char_inj) simp_all
      ultimately show ?thesis by (metis div_mult_mod_eq)
    qed
  qed
qed

lemma int_to_string_no_bar: "CHR ''|'' \<notin> set (int_to_string i)"
  by (simp add: int_to_string_def digits_no_bar)

lemma int_to_string_inj: "int_to_string i = int_to_string j \<Longrightarrow> i = j"
proof -
  assume eq: "int_to_string i = int_to_string j"
  have hd_digit: "hd (digits n) \<noteq> CHR ''-''" for n
    using digits_no_minus [of n] digits_nonempty [of n] by (cases "digits n") auto
  consider "i < 0" "j < 0" | "i < 0" "\<not> j < 0" | "\<not> i < 0" "j < 0" | "\<not> i < 0" "\<not> j < 0"
    by blast
  then show ?thesis
  proof cases
    case 1
    with eq have "digits (nat (- i)) = digits (nat (- j))" by (simp add: int_to_string_def)
    then have "nat (- i) = nat (- j)" by (rule digits_inj)
    with 1 show ?thesis by simp
  next
    case 2
    with eq have "CHR ''-'' # digits (nat (- i)) = digits (nat j)"
      by (simp add: int_to_string_def)
    then have "hd (digits (nat j)) = CHR ''-''" by (metis list.sel(1))
    with hd_digit show ?thesis by blast
  next
    case 3
    with eq have "digits (nat i) = CHR ''-'' # digits (nat (- j))"
      by (simp add: int_to_string_def)
    then have "hd (digits (nat i)) = CHR ''-''" by (metis list.sel(1))
    with hd_digit show ?thesis by blast
  next
    case 4
    with eq have "digits (nat i) = digits (nat j)" by (simp add: int_to_string_def)
    then have "nat i = nat j" by (rule digits_inj)
    with 4 show ?thesis by simp
  qed
qed

lemma append_sep_inj:
  assumes "xs @ c # r = ys @ c # r'" and "c \<notin> set xs" and "c \<notin> set ys"
  shows "xs = ys \<and> r = r'"
proof -
  have "takeWhile (\<lambda>x. x \<noteq> c) (xs @ c # r) = xs"
    using assms(2) by (auto simp add: takeWhile_tail)
  moreover have "takeWhile (\<lambda>x. x \<noteq> c) (ys @ c # r') = ys"
    using assms(3) by (auto simp add: takeWhile_tail)
  ultimately have "xs = ys" using assms(1) by simp
  with assms(1) show ?thesis by simp
qed

lemma cell_key_inj: "cell_key y g = cell_key y' g' \<longleftrightarrow> y = y' \<and> g = g'"
proof
  assume "cell_key y g = cell_key y' g'"
  then have "int_to_string y @ CHR ''|'' # (CHR ''|'' # g)
      = int_to_string y' @ CHR ''|'' # (CHR ''|'' # g')"
    by (simp add: cell_key_def)
  then have *: "int_to_string y = int_to_string y' \<and> CHR ''|'' # g = CHR ''|'' # g'"
    by (rule append_sep_inj) (rule int_to_string_no_bar)+
  from * have "y = y'" by (intro int_to_string_inj) (rule conjunct1)
  moreover from * have "g = g'" by (simp only: list.inject)
  ultimately show "y = y' \<and> g = g'" by (rule conjI)
next
  assume "y = y' \<and> g = g'"
  then show "cell_key y g = cell_key y' g'" by (simp only:)
qed

subsection \<open>Heat map: the value map\<close>

text \<open>
  The value map holds, under the key of a year and a genre, the mean popularity of the
  rows of that year and genre among the rows of the selected genres, and nothing under
  the key of a pair that has no such row.
\<close>

lemma map_of_rev_distinct:
  assumes "distinct (map fst xs)"
  shows "map_of (rev xs) = map_of xs"
proof
  fix k
  show "map_of (rev xs) k = map_of xs k"
  proof (cases "map_of xs k")
    case None
    then have "k \<notin> fst ` set xs" by (simp add: map_of_eq_None_iff)
    then have "map_of (rev xs) k = None" by (simp add: map_of_eq_None_iff)
    with None show ?thesis by simp
  next
    case (Some v)
    then have "(k, v) \<in> set (rev xs)" by (auto dest: map_of_SomeD)
    moreover from assms have "distinct (map fst (rev xs))" by (simp add: rev_map [symmetric])
    ultimately have "map_of (rev xs) k = Some v" by simp
    with Some show ?thesis by simp
  qed
qed

lemma inner_fold_lookup:
  "foldl (\<lambda>m (g, avg). m(cell_key y g \<mapsto> avg)) m inner (cell_key y' g')
   = (if y = y'
      then (case map_of (rev inner) g' of None \<Rightarrow> m (cell_key y' g') | Some v \<Rightarrow> Some v)
      else m (cell_key y' g'))"
proof (induction inner rule: rev_induct)
  case Nil
  show ?case by simp
next
  case (snoc x inner)
  obtain g avg where x: "x = (g, avg)" by (cases x)
  define M where "M = foldl (\<lambda>m (g, avg). m(cell_key y g \<mapsto> avg)) m inner"
  have IH: "M (cell_key y' g')
   = (if y = y'
      then (case map_of (rev inner) g' of None \<Rightarrow> m (cell_key y' g') | Some v \<Rightarrow> Some v)
      else m (cell_key y' g'))"
    unfolding M_def by (rule snoc)
  have "foldl (\<lambda>m (g, avg). m(cell_key y g \<mapsto> avg)) m (inner @ [x]) (cell_key y' g')
      = (M(cell_key y g \<mapsto> avg)) (cell_key y' g')"
    by (simp add: x M_def del: fun_upd_apply)
  also have "\<dots> = (if y = y' \<and> g = g' then Some avg else M (cell_key y' g'))"
    by (simp add: cell_key_inj)
  finally have lhs:
    "foldl (\<lambda>m (g, avg). m(cell_key y g \<mapsto> avg)) m (inner @ [x]) (cell_key y' g')
      = (if y = y' \<and> g = g' then Some avg else M (cell_key y' g'))" .
  have rhs: "(if y = y'
      then (case map_of (rev (inner @ [x])) g' of None \<Rightarrow> m (cell_key y' g')
            | Some v \<Rightarrow> Some v)
      else m (cell_key y' g'))
    = (if y = y' \<and> g = g' then Some avg
       else (if y = y'
             then (case map_of (rev inner) g' of None \<Rightarrow> m (cell_key y' g')
                   | Some v \<Rightarrow> Some v)
             else m (cell_key y' g')))"
    by (simp add: x)
  show ?case by (simp only: lhs rhs IH)
qed

lemma valueMap_snoc:
  "valueMap (L @ [(y, inner)]) = foldl (\<lambda>m (g, avg). m(cell_key y g \<mapsto> avg)) (valueMap L) inner"
  by (simp add: valueMap_def)

lemma valueMap_lookup:
  assumes "distinct (map fst L)"
  shows "valueMap L (cell_key y g)
         = (case map_of L y of None \<Rightarrow> None | Some inner \<Rightarrow> map_of (rev inner) g)"
  using assms
proof (induction L rule: rev_induct)
  case Nil
  show ?case by (simp add: valueMap_def)
next
  case (snoc x L)
  obtain y0 inner0 where x: "x = (y0, inner0)" by (cases x)
  from snoc.prems have d: "distinct (map fst L)" and n: "y0 \<notin> fst ` set L" by (simp_all add: x)
  note IH = snoc.IH [OF d]
  show ?case
  proof (cases "y0 = y")
    case True
    with n have none: "map_of L y = None" by (simp add: map_of_eq_None_iff)
    with IH have "valueMap L (cell_key y g) = None" by simp
    with True none show ?thesis
      by (simp add: x valueMap_snoc inner_fold_lookup map_add_def split: option.split)
  next
    case False
    then show ?thesis
      by (simp add: x valueMap_snoc inner_fold_lookup IH map_add_def split: option.split)
  qed
qed

lemma rollups_map_of:
  "map_of (rollups red f xs) k
   = (if k \<in> f ` set xs then Some (red (filter (\<lambda>x. f x = k) xs)) else None)"
proof -
  have "map_of (rollups red f xs) k = map_option red (map_of (group f xs) k)"
    unfolding rollups_def by (simp add: map_of_map)
  then show ?thesis by (simp add: group_map_of)
qed

lemma rollups_keys: "map fst (rollups red f xs) = map fst (group f xs)"
  by (simp add: rollups_def case_prod_unfold)

lemma rollups2_map_of:
  "map_of (rollups2 red f1 f2 xs) k
   = (if k \<in> f1 ` set xs then Some (rollups red f2 (filter (\<lambda>x. f1 x = k) xs)) else None)"
proof -
  have "map_of (rollups2 red f1 f2 xs) k = map_option (rollups red f2) (map_of (group f1 xs) k)"
    unfolding rollups2_def by (simp add: map_of_map)
  then show ?thesis by (simp add: group_map_of)
qed

lemma rollups2_keys: "map fst (rollups2 red f1 f2 xs) = map fst (group f1 xs)"
  by (simp add: rollups2_def case_prod_unfold)

lemma valueMap_byYearGenre:
  "valueMap (byYearGenre rows) (cell_key y g)
   = (let ms = filter (\<lambda>r. r_year r = y \<and> r_genre r = g) (filtered rows)
      in if ms = [] then None
         else Some (Num (sum_list (map r_pop ms) / real (length ms))))"
proof -
  let ?F = "filtered rows"
  let ?red = "\<lambda>v. case d3_mean (map (\<lambda>d. Num (r_pop d)) v) of None \<Rightarrow> NaN | Some m \<Rightarrow> Num m"
  let ?ms = "filter (\<lambda>r. r_year r = y \<and> r_genre r = g) ?F"
  have d: "distinct (map fst (byYearGenre rows))"
    by (simp add: byYearGenre_def rollups2_keys group_keys_distinct)
  have red: "?red v = Num (sum_list (map r_pop v) / real (length v))" if "v \<noteq> []" for v
  proof -
    have "map (\<lambda>d. Num (r_pop d)) v = map Num (map r_pop v)" by simp
    then have "d3_mean (map (\<lambda>d. Num (r_pop d)) v)
        = Some (sum_list (map r_pop v) / real (length v))"
      using that by (simp only: d3_mean_numbers) simp
    then show ?thesis by simp
  qed
  have ff: "filter (\<lambda>x. r_genre x = g) (filter (\<lambda>x. r_year x = y) ?F) = ?ms"
    by (simp add: conj_commute)
  have look: "valueMap (byYearGenre rows) (cell_key y g)
      = (case map_of (byYearGenre rows) y of None \<Rightarrow> None
         | Some inner \<Rightarrow> map_of (rev inner) g)"
    by (rule valueMap_lookup [OF d])
  have mo: "map_of (byYearGenre rows) y
      = (if y \<in> r_year ` set ?F
         then Some (rollups ?red r_genre (filter (\<lambda>x. r_year x = y) ?F)) else None)"
    by (simp add: byYearGenre_def rollups2_map_of)
  show ?thesis
  proof (cases "y \<in> r_year ` set ?F")
    case False
    then have "?ms = []" by (auto simp add: filter_empty_conv)
    moreover from False have "valueMap (byYearGenre rows) (cell_key y g) = None"
      by (simp add: look mo)
    ultimately show ?thesis by simp
  next
    case True
    let ?Fy = "filter (\<lambda>x. r_year x = y) ?F"
    let ?inner = "rollups ?red r_genre ?Fy"
    have di: "distinct (map fst ?inner)" by (simp add: rollups_keys group_keys_distinct)
    from True have "valueMap (byYearGenre rows) (cell_key y g) = map_of (rev ?inner) g"
      by (simp add: look mo)
    also have "\<dots> = map_of ?inner g" by (simp only: map_of_rev_distinct [OF di])
    also have "\<dots> = (if g \<in> r_genre ` set ?Fy then Some (?red ?ms) else None)"
      by (simp only: rollups_map_of ff)
    finally have v: "valueMap (byYearGenre rows) (cell_key y g)
        = (if g \<in> r_genre ` set ?Fy then Some (?red ?ms) else None)" .
    show ?thesis
    proof (cases "?ms = []")
      case e: True
      then have "g \<notin> r_genre ` set ?Fy" by (auto simp add: filter_empty_conv)
      with v e show ?thesis by simp
    next
      case ne: False
      then have "g \<in> r_genre ` set ?Fy" by (auto simp add: filter_empty_conv)
      with v ne red [OF ne] show ?thesis by (simp add: Let_def)
    qed
  qed
qed

subsection \<open>Heat map: years, genres and grid\<close>

lemma add_all_set: "set (add_all seen xs) = set seen \<union> set xs"
  by (induction xs arbitrary: seen) auto

lemma add_all_distinct: "distinct seen \<Longrightarrow> distinct (add_all seen xs)"
  by (induction xs arbitrary: seen) auto

lemma new_Set_set: "set (new_Set xs) = set xs"
  by (simp add: new_Set_def add_all_set)

lemma new_Set_distinct: "distinct (new_Set xs)"
  by (simp add: new_Set_def add_all_distinct)

lemma years_eq: "years rows = sort (new_Set (map r_year (filtered rows)))"
proof -
  have "sort_with (\<lambda>a b. real_of_int a - real_of_int b) xs = sort_key (\<lambda>x. x) xs" for xs
    by (rule sort_with_sort_key) simp
  then show ?thesis by (simp add: years_def)
qed

lemma years_sorted: "sorted (years rows)"
  by (simp add: years_eq)

lemma years_distinct: "distinct (years rows)"
  by (simp add: years_eq new_Set_distinct)

lemma years_set: "set (years rows) = r_year ` set (filtered rows)"
  by (simp add: years_eq new_Set_set)

lemma genreCounts_eq:
  "genreCounts rows = sort_key (\<lambda>d. - real (snd d)) (rollups length r_genre rows)"
proof -
  have "sort_with (\<lambda>a b. real (snd b) - real (snd a)) xs = sort_key (\<lambda>d. - real (snd d)) xs"
    for xs :: "(string \<times> nat) list"
    by (rule sort_with_sort_key) simp
  then show ?thesis by (simp add: genreCounts_def)
qed

lemma genreCounts_keys_distinct: "distinct (map fst (genreCounts rows))"
proof -
  have "mset (map fst (genreCounts rows)) = mset (map fst (rollups length r_genre rows))"
    by (simp add: genreCounts_eq)
  moreover have "distinct (map fst (rollups length r_genre rows))"
    by (simp add: rollups_keys group_keys_distinct)
  ultimately show ?thesis by (metis distinct_count_atmost_1 mset_eq_setD set_mset_mset
        count_mset_0_iff)
qed

lemma genres_distinct: "distinct (genres rows)"
proof -
  have "genres rows = take TOP_GENRES (map fst (genreCounts rows))"
    by (simp add: genres_def take_map)
  then show ?thesis by (simp add: genreCounts_keys_distinct)
qed

lemma genres_length: "length (genres rows) \<le> 12"
  by (simp add: genres_def TOP_GENRES_def)

lemma genres_subset: "set (genres rows) \<subseteq> r_genre ` set rows"
proof -
  have "set (genres rows) \<subseteq> set (map fst (genreCounts rows))"
    unfolding genres_def by (metis set_take_subset take_map)
  also have "\<dots> = fst ` set (rollups length r_genre rows)"
    by (simp add: genreCounts_eq)
  also have "\<dots> = r_genre ` set rows"
    using arg_cong [OF rollups_keys, of set length r_genre rows] by (simp add: group_keys_set)
  finally show ?thesis .
qed

lemma grid_cells:
  "map (\<lambda>c. (cell_year c, cell_genre c)) (grid rows) = List.product (years rows) (genres rows)"
proof -
  have "map (\<lambda>c. (cell_year c, cell_genre c)) (concat (map (\<lambda>yr. map (\<lambda>g. \<lparr>cell_year = yr,
      cell_genre = g, cell_value = f yr g\<rparr>) gs) ys)) = List.product ys gs" for f ys gs
    by (induction ys) (simp_all add: comp_def)
  then show ?thesis by (simp add: grid_def)
qed

lemma grid_values:
  assumes "c \<in> set (grid rows)"
  shows "cell_value c = valueMap (byYearGenre rows) (cell_key (cell_year c) (cell_genre c))
    \<and> cell_year c \<in> set (years rows) \<and> cell_genre c \<in> set (genres rows)"
  using assms by (auto simp add: grid_def)

text \<open>
  Claim C4. For every list of validated rows, the cells of the grid are, in this order,
  the pairs of the product of the years and the selected genres: the years ascend, and
  under each year the genres follow in their selected order. Years and genres have no
  repetition, so each pair has exactly one cell and the grid has as many cells as there
  are years times genres. The years are the years observed among the rows of the selected
  genres, which are the rows the aggregation reads. The value of a cell is \<open>undefined\<close>
  when no row has its year and genre, and the mean popularity of those rows otherwise.
\<close>

theorem grid_dense:
  "map (\<lambda>c. (cell_year c, cell_genre c)) (grid rows) = List.product (years rows) (genres rows)
   \<and> length (grid rows) = length (years rows) * length (genres rows)
   \<and> distinct (map (\<lambda>c. (cell_year c, cell_genre c)) (grid rows))
   \<and> sorted (years rows) \<and> distinct (years rows) \<and> distinct (genres rows)
   \<and> set (years rows) = r_year ` {r \<in> set rows. r_genre r \<in> set (genres rows)}
   \<and> (\<forall>c \<in> set (grid rows).
         cell_value c
         = (let ms = filter (\<lambda>r. r_year r = cell_year c \<and> r_genre r = cell_genre c) rows
            in if ms = [] then None
               else Some (Num (sum_list (map r_pop ms) / real (length ms)))))"
proof -
  have cells: "map (\<lambda>c. (cell_year c, cell_genre c)) (grid rows)
      = List.product (years rows) (genres rows)"
    by (rule grid_cells)
  have len: "length (grid rows) = length (years rows) * length (genres rows)"
    using arg_cong [OF cells, of length] by simp
  have dist: "distinct (map (\<lambda>c. (cell_year c, cell_genre c)) (grid rows))"
    unfolding cells by (intro distinct_product years_distinct genres_distinct)
  have ys: "set (years rows) = r_year ` {r \<in> set rows. r_genre r \<in> set (genres rows)}"
    by (simp add: years_set filtered_def)
  have val: "cell_value c
         = (let ms = filter (\<lambda>r. r_year r = cell_year c \<and> r_genre r = cell_genre c) rows
            in if ms = [] then None
               else Some (Num (sum_list (map r_pop ms) / real (length ms))))"
    if "c \<in> set (grid rows)" for c
  proof -
    from grid_values [OF that]
    have v: "cell_value c = valueMap (byYearGenre rows) (cell_key (cell_year c) (cell_genre c))"
      and g: "cell_genre c \<in> set (genres rows)" by simp_all
    have "filter (\<lambda>r. r_year r = cell_year c \<and> r_genre r = cell_genre c) (filtered rows)
        = filter (\<lambda>r. r_year r = cell_year c \<and> r_genre r = cell_genre c) rows"
      unfolding filtered_def filter_filter using g by (intro filter_cong) auto
    then show ?thesis by (simp only: v valueMap_byYearGenre)
  qed
  from cells len dist years_sorted [of rows] years_distinct [of rows] genres_distinct [of rows]
    ys val
  show ?thesis by blast
qed

text \<open>The years and genres of the sample rows.\<close>

lemma years_rows_3y: "years rows_3y = [2000, 2001, 2003]"
  by (simp add: years_def filtered_def genres_def genreCounts_def rollups_def group_def
      rows_3y_def sort_with_def new_Set_def TOP_GENRES_def)

lemma genres_rows_3y: "genres rows_3y = [''pop'', ''rock'']"
  by (simp add: genres_def genreCounts_def rollups_def group_def
      rows_3y_def sort_with_def TOP_GENRES_def)

text \<open>
  The theorem at the sample rows: three years and two genres give six cells, the cell of
  2003 and rock is present without a value, the cell of 2000 and pop holds the mean of 50
  and 80.
\<close>

theorem grid_dense_witness:
  "length (grid rows_3y) = 6
   \<and> map (\<lambda>c. (cell_year c, cell_genre c)) (grid rows_3y)
     = [(2000, ''pop''), (2000, ''rock''), (2001, ''pop''), (2001, ''rock''),
        (2003, ''pop''), (2003, ''rock'')]
   \<and> \<lparr>cell_year = 2003, cell_genre = ''rock'', cell_value = None\<rparr> \<in> set (grid rows_3y)
   \<and> \<lparr>cell_year = 2000, cell_genre = ''pop'', cell_value = Some (Num 65)\<rparr> \<in> set (grid rows_3y)"
proof -
  note th = grid_dense [of rows_3y]
  from th have "length (grid rows_3y) = length (years rows_3y) * length (genres rows_3y)"
    by blast
  then have a: "length (grid rows_3y) = 6" by (simp add: years_rows_3y genres_rows_3y)
  from th have "map (\<lambda>c. (cell_year c, cell_genre c)) (grid rows_3y)
      = List.product (years rows_3y) (genres rows_3y)" by blast
  then have b: "map (\<lambda>c. (cell_year c, cell_genre c)) (grid rows_3y)
     = [(2000, ''pop''), (2000, ''rock''), (2001, ''pop''), (2001, ''rock''),
        (2003, ''pop''), (2003, ''rock'')]"
    by (simp add: years_rows_3y genres_rows_3y)
  from th have val: "\<forall>c \<in> set (grid rows_3y).
         cell_value c
         = (let ms = filter (\<lambda>r. r_year r = cell_year c \<and> r_genre r = cell_genre c) rows_3y
            in if ms = [] then None
               else Some (Num (sum_list (map r_pop ms) / real (length ms))))" by blast
  from b have "(2003, ''rock'') \<in> set (map (\<lambda>c. (cell_year c, cell_genre c)) (grid rows_3y))"
    by simp
  then obtain c1 where c1: "c1 \<in> set (grid rows_3y)" "cell_year c1 = 2003"
    "cell_genre c1 = ''rock''" by auto
  with val have "cell_value c1 = None" by (simp add: rows_3y_def)
  with c1 have "c1 = \<lparr>cell_year = 2003, cell_genre = ''rock'', cell_value = None\<rparr>" by simp
  with c1 have c: "\<lparr>cell_year = 2003, cell_genre = ''rock'', cell_value = None\<rparr> \<in> set (grid rows_3y)"
    by simp
  from b have "(2000, ''pop'') \<in> set (map (\<lambda>c. (cell_year c, cell_genre c)) (grid rows_3y))"
    by simp
  then obtain c2 where c2: "c2 \<in> set (grid rows_3y)" "cell_year c2 = 2000"
    "cell_genre c2 = ''pop''" by auto
  with val have "cell_value c2 = Some (Num 65)" by (simp add: rows_3y_def)
  with c2 have "c2 = \<lparr>cell_year = 2000, cell_genre = ''pop'', cell_value = Some (Num 65)\<rparr>"
    by simp
  with c2 have d: "\<lparr>cell_year = 2000, cell_genre = ''pop'', cell_value = Some (Num 65)\<rparr>
      \<in> set (grid rows_3y)" by simp
  from a b c d show ?thesis by blast
qed

subsection \<open>Heat map: the year revealed at the start\<close>

lemma valid_rows_year:
  "r \<in> set (valid_rows mapped) \<Longrightarrow> MIN_YEAR \<le> r_year r \<and> r_year r \<le> MAX_YEAR \<and> r_genre r \<noteq> []"
proof -
  assume "r \<in> set (valid_rows mapped)"
  then obtain d where d: "d \<in> set mapped"
    and ok: "ge (m_year d) MIN_YEAR \<and> le (m_year d) MAX_YEAR \<and> 0 < length (m_genre d)"
    and r: "r \<in> set (case (m_year d, m_pop d) of
               (Num y, Num p) \<Rightarrow> [\<lparr>r_year = y, r_genre = m_genre d, r_pop = p\<rparr>]
             | _ \<Rightarrow> [])"
    by (auto simp add: valid_rows_def split: if_splits)
  show ?thesis
  proof (cases "m_year d")
    case NaN
    with r show ?thesis by simp
  next
    case y: (Num y)
    show ?thesis
    proof (cases "m_pop d")
      case NaN
      with r y show ?thesis by simp
    next
      case (Num p)
      with r y ok show ?thesis by (auto simp add: ge_def le_def)
    qed
  qed
qed

lemma years_subset: "set (years rows) \<subseteq> r_year ` set rows"
  by (auto simp add: years_set filtered_def)

text \<open>
  Claim C8, as amended. The revealed year starts at the constant \<open>MIN_YEAR\<close>, which is
  1950, whatever the data. No observed year is below it, because validation drops the
  rows before 1950; it is the least observed year exactly when 1950 is itself observed.
\<close>

theorem initial_year_constant:
  "initial_currentYear = 1950
   \<and> (\<forall>y \<in> set (years (valid_rows mapped)). initial_currentYear \<le> y)
   \<and> (years (valid_rows mapped) \<noteq> [] \<longrightarrow>
        (initial_currentYear = Min (set (years (valid_rows mapped)))
         \<longleftrightarrow> 1950 \<in> set (years (valid_rows mapped))))"
proof -
  let ?ys = "years (valid_rows mapped)"
  have i: "initial_currentYear = 1950" by (simp add: initial_currentYear_def MIN_YEAR_def)
  have lo: "initial_currentYear \<le> y" if "y \<in> set ?ys" for y
  proof -
    from that years_subset obtain r where "r \<in> set (valid_rows mapped)" "y = r_year r"
      by blast
    with valid_rows_year [of r mapped] show ?thesis by (simp add: i MIN_YEAR_def)
  qed
  have m: "initial_currentYear = Min (set ?ys) \<longleftrightarrow> 1950 \<in> set ?ys" if "?ys \<noteq> []"
  proof
    assume "initial_currentYear = Min (set ?ys)"
    moreover from that have "Min (set ?ys) \<in> set ?ys" by (intro Min_in) simp_all
    ultimately show "1950 \<in> set ?ys" by (simp add: i)
  next
    assume a: "1950 \<in> set ?ys"
    then have "Min (set ?ys) \<le> 1950" by simp
    moreover from that have "Min (set ?ys) \<in> set ?ys" by (intro Min_in) simp_all
    then have "1950 \<le> Min (set ?ys)" using lo i by auto
    ultimately show "initial_currentYear = Min (set ?ys)" by (simp add: i)
  qed
  from i lo m show ?thesis by blast
qed

text \<open>The observed years of the data file with one track of 2000.\<close>

lemma years_mapped_2000: "years (valid_rows mapped_2000) = [2000]"
  by (simp add: years_def filtered_def genres_def genreCounts_def rollups_def group_def
      valid_rows_def mapped_2000_def sort_with_def new_Set_def TOP_GENRES_def isFinite_def
      ge_def le_def MIN_YEAR_def MAX_YEAR_def)

text \<open>The theorem at that data file: the start year is 1950, the least observed year 2000.\<close>

theorem initial_year_constant_witness:
  "initial_currentYear = 1950 \<and> initial_currentYear \<le> 2000
   \<and> initial_currentYear \<noteq> Min (set (years (valid_rows mapped_2000)))"
proof -
  note th = initial_year_constant [of mapped_2000]
  have ne: "years (valid_rows mapped_2000) \<noteq> []" by (simp add: years_mapped_2000)
  have "2000 \<in> set (years (valid_rows mapped_2000))" by (simp add: years_mapped_2000)
  with th have a: "initial_currentYear \<le> 2000" by blast
  have "1950 \<notin> set (years (valid_rows mapped_2000))" by (simp add: years_mapped_2000)
  with th ne have b: "initial_currentYear \<noteq> Min (set (years (valid_rows mapped_2000)))"
    by blast
  from th a b show ?thesis by blast
qed

text \<open>
  The claim as written (the revealed year starts at the least observed year) fails for
  the same data file.
\<close>

theorem initial_year_minimum_counterexample:
  "\<not> (\<forall>mapped. years (valid_rows mapped) \<noteq> [] \<longrightarrow>
        initial_currentYear = Min (set (years (valid_rows mapped))))"
proof
  assume "\<forall>mapped. years (valid_rows mapped) \<noteq> [] \<longrightarrow>
        initial_currentYear = Min (set (years (valid_rows mapped)))"
  then have "years (valid_rows mapped_2000) \<noteq> [] \<longrightarrow>
        initial_currentYear = Min (set (years (valid_rows mapped_2000)))"
    by blast
  then have "initial_currentYear = Min (set (years (valid_rows mapped_2000)))"
    by (simp add: years_mapped_2000)
  then show False
    by (simp add: years_mapped_2000 initial_currentYear_def MIN_YEAR_def)
qed

subsection \<open>Heat map: the drag handler\<close>

text \<open>
  The handler reads inside the list. For a non-empty list of years and every horizontal
  position, the step of the scale is positive, the index lies between 0 and the last
  index (as it would for any other step), and the revealed year becomes an element of the
  list, between its least and its greatest year.
\<close>

lemma x_step_pos: "0 < x_step n"
  by (simp add: x_step_def range_stop_def margin_left_def)

lemma drag_idx_range: "0 < n \<Longrightarrow> 0 \<le> drag_idx w n xPos \<and> drag_idx w n xPos < int n"
  by (simp add: drag_idx_def)

lemma drag_in_bounds:
  assumes "ys \<noteq> []"
  shows "0 < x_step (length ys)
    \<and> 0 \<le> drag_idx w (length ys) xPos
    \<and> drag_idx w (length ys) xPos \<le> int (length ys) - 1
    \<and> (\<exists>y. drag ys xPos = Some y \<and> y \<in> set ys
           \<and> Min (set ys) \<le> y \<and> y \<le> Max (set ys))"
proof -
  let ?n = "length ys"
  let ?i = "drag_idx (x_step ?n) ?n xPos"
  from assms have n: "0 < ?n" by simp
  from drag_idx_range [OF n] have r: "0 \<le> ?i" "?i < int ?n" by simp_all
  from drag_idx_range [OF n, of w xPos]
  have any: "0 \<le> drag_idx w ?n xPos \<and> drag_idx w ?n xPos \<le> int ?n - 1" by simp
  from r have d: "drag ys xPos = Some (ys ! nat ?i)"
    by (simp add: drag_def array_get_def)
  from r have m: "ys ! nat ?i \<in> set ys" by simp
  then have "Min (set ys) \<le> ys ! nat ?i" "ys ! nat ?i \<le> Max (set ys)"
    by simp_all
  with d m have "\<exists>y. drag ys xPos = Some y \<and> y \<in> set ys
           \<and> Min (set ys) \<le> y \<and> y \<le> Max (set ys)" by blast
  with x_step_pos [of ?n] any show ?thesis by simp
qed

text \<open>
  Where the scale draws: the first band starts a twentieth of a step right of the left
  margin, and the cursor line of the year at index \<open>j\<close> stands at \<open>j + 0.525\<close> steps from
  the margin, the centre of the band of that year.
\<close>

lemma x_step_times: "0 < n \<Longrightarrow> x_step n * (real n + 0.05) = range_stop - margin_left"
proof -
  assume "0 < n"
  then have "1 \<le> real n" by simp
  then have "max 1 (real n - 0.05 + 0.05 * 2) = real n + 0.05" by simp
  then show ?thesis by (simp add: x_step_def)
qed

lemma x_start_eq: "0 < n \<Longrightarrow> x_start n = margin_left + 0.05 * x_step n"
proof -
  assume n: "0 < n"
  have "range_stop - margin_left - x_step n * (real n - 0.05)
      = x_step n * (real n + 0.05) - x_step n * (real n - 0.05)"
    by (simp only: x_step_times [OF n])
  also have "\<dots> = 0.1 * x_step n" by (simp add: algebra_simps)
  finally show ?thesis by (simp add: x_start_def)
qed

lemma index_of_nth: "distinct ys \<Longrightarrow> j < length ys \<Longrightarrow> index_of ys (ys ! j) = Some j"
proof (induction ys arbitrary: j)
  case Nil
  then show ?case by simp
next
  case (Cons y ys)
  show ?case
  proof (cases j)
    case 0
    then show ?thesis by simp
  next
    case (Suc k)
    with Cons.prems have "ys ! k \<in> set ys" and "y \<notin> set ys" by simp_all
    then have "y \<noteq> ys ! k" by blast
    with Suc Cons show ?thesis by simp
  qed
qed

lemma cursorX_nth:
  assumes "distinct ys" and "j < length ys"
  shows "cursorX ys (ys ! j) = margin_left + (real j + 0.525) * x_step (length ys)"
proof -
  from assms(2) have n: "0 < length ys" by (cases ys) simp_all
  show ?thesis
    by (simp add: cursorX_def x_scale_def index_of_nth [OF assms] x_start_eq [OF n]
        bandwidth_def algebra_simps)
qed

text \<open>
  A pointer exactly on the cursor line of a year that is not the last sets the revealed
  year to the next year: the handler divides the distance from the margin by the step and
  rounds, which ignores the offset of the band centres.
\<close>

lemma drag_at_cursor:
  assumes "distinct ys" and "Suc j < length ys"
  shows "drag ys (cursorX ys (ys ! j)) = Some (ys ! Suc j)"
proof -
  let ?n = "length ys"
  from assms(2) have j: "j < ?n" by simp
  have s: "0 < x_step ?n" by (rule x_step_pos)
  have "drag_index (x_step ?n) (cursorX ys (ys ! j)) = real j + 0.525"
    using s by (simp add: drag_index_def cursorX_nth [OF assms(1) j])
  then have "Math_round (drag_index (x_step ?n) (cursorX ys (ys ! j))) = int j + 1"
    unfolding Math_round_def by (simp add: floor_eq_iff)
  with assms(2) have "drag_idx (x_step ?n) ?n (cursorX ys (ys ! j)) = int (Suc j)"
    by (simp add: drag_idx_def)
  with assms(2) show ?thesis
    by (simp add: drag_def array_get_def del: of_nat_Suc)
qed

text \<open>
  Claim C9, at the years 2000, 2001 and 2003. The position 400 lies inside the band of
  2000 and is nearer to the cursor line of 2000 than to the cursor line of either other
  year, and the handler sets the revealed year to 2001; so it does at the cursor line of
  2000 itself. The handler does not map a position to the nearest year.
\<close>

theorem drag_inside_band_of_2000:
  "drag [2000, 2001, 2003] 400 = Some 2001
   \<and> x_scale [2000, 2001, 2003] 2000 = Some (margin_left + 0.05 * x_step 3)
   \<and> margin_left + 0.05 * x_step 3 < 400
   \<and> 400 < margin_left + 0.05 * x_step 3 + bandwidth 3
   \<and> \<bar>400 - cursorX [2000, 2001, 2003] 2000\<bar> < \<bar>400 - cursorX [2000, 2001, 2003] 2001\<bar>
   \<and> \<bar>400 - cursorX [2000, 2001, 2003] 2000\<bar> < \<bar>400 - cursorX [2000, 2001, 2003] 2003\<bar>
   \<and> drag [2000, 2001, 2003] (cursorX [2000, 2001, 2003] 2000) = Some 2001"
proof -
  have a: "drag [2000, 2001, 2003] 400 = Some 2001"
    by (simp add: drag_def array_get_def drag_idx_def drag_index_def x_step_def
        range_stop_def margin_left_def Math_round_def)
  have st: "x_step 3 = 16400 / 61"
    by (simp add: x_step_def range_stop_def margin_left_def)
  have "x_start 3 = margin_left + 0.05 * x_step 3" by (rule x_start_eq) simp
  then have b: "x_scale [2000, 2001, 2003] 2000 = Some (margin_left + 0.05 * x_step 3)"
    by (simp add: x_scale_def numeral_3_eq_3 [symmetric])
  have c: "margin_left + 0.05 * x_step 3 < 400"
    and d: "400 < margin_left + 0.05 * x_step 3 + bandwidth 3"
    by (simp_all add: st margin_left_def bandwidth_def)
  have c0: "cursorX [2000, 2001, 2003] 2000 = margin_left + 0.525 * x_step 3"
    using cursorX_nth [of "[2000, 2001, 2003]" 0] by (simp add: numeral_3_eq_3 [symmetric])
  have c1: "cursorX [2000, 2001, 2003] 2001 = margin_left + 1.525 * x_step 3"
    using cursorX_nth [of "[2000, 2001, 2003]" 1] by (simp add: numeral_3_eq_3 [symmetric])
  have c2: "cursorX [2000, 2001, 2003] 2003 = margin_left + 2.525 * x_step 3"
    using cursorX_nth [of "[2000, 2001, 2003]" 2] by (simp add: numeral_3_eq_3 [symmetric])
  have e: "\<bar>400 - cursorX [2000, 2001, 2003] 2000\<bar> < \<bar>400 - cursorX [2000, 2001, 2003] 2001\<bar>"
    and f: "\<bar>400 - cursorX [2000, 2001, 2003] 2000\<bar> < \<bar>400 - cursorX [2000, 2001, 2003] 2003\<bar>"
    by (simp_all add: c0 c1 c2 st margin_left_def)
  have g: "drag [2000, 2001, 2003] (cursorX [2000, 2001, 2003] 2000) = Some 2001"
    using drag_at_cursor [of "[2000, 2001, 2003]" 0] by (simp add: numeral_3_eq_3 [symmetric])
  from a b c d e f g show ?thesis by blast
qed

subsection \<open>Dashboard: the selections that can occur\<close>

text \<open>
  The keys of the bars are artists of cleaned rows, hence not empty, and every selection
  that a sequence of clicks and resolved loads can produce is none or one of these keys.
\<close>

lemma bar_keys_subset: "set (bar_keys num data) \<subseteq> c_artist ` set (cleaned num data)"
proof -
  define g where "g = map (\<lambda>(k, vs). (k, \<lparr>avgPop = nullish (d3_mean (map c_pop vs)) 0,
                                   genre = c_genre (hd vs),
                                   artistPopularity = c_artistPopularity (hd vs),
                                   trackCount = length vs\<rparr>))
            (group c_artist (cleaned num data))"
  have k: "bar_keys num data = map fst (top10 g)"
    by (simp add: bar_keys_def bar_top10_def grouped_eq g_def)
  have sub: "set (top10 g) \<subseteq> set g"
  proof -
    have "set (top10 g) \<subseteq> set (sort_key (\<lambda>d. - avgPop (snd d))
                       (filter (\<lambda>d. 5 \<le> trackCount (snd d)) g))"
      unfolding top10_eq by (rule set_take_subset)
    then show ?thesis by auto
  qed
  have img: "fst ` set g = c_artist ` set (cleaned num data)"
  proof -
    have "map fst g = map fst (group c_artist (cleaned num data))"
      by (simp add: g_def case_prod_unfold)
    then have "fst ` set g = fst ` set (group c_artist (cleaned num data))"
      by (metis list.set_map)
    then show ?thesis by (simp only: group_keys_set)
  qed
  have "set (bar_keys num data) = fst ` set (top10 g)" by (simp add: k)
  also have "\<dots> \<subseteq> fst ` set g" using sub by (rule image_mono)
  also note img
  finally show ?thesis .
qed

lemma bar_keys_nonempty: "a \<in> set (bar_keys num data) \<Longrightarrow> a \<noteq> []"
proof -
  assume "a \<in> set (bar_keys num data)"
  with bar_keys_subset obtain c where "c \<in> set (cleaned num data)" and "a = c_artist c"
    by blast
  then show ?thesis by (auto dest: cleaned_member)
qed

lemma click_values: "click c a = None \<or> click c a = Some a"
  by (simp add: click_def)

lemma step_selected:
  assumes "selected s = None \<or> (\<exists>a \<in> set bars. selected s = Some a)"
  shows "selected (step bars s e) = None \<or> (\<exists>a \<in> set bars. selected (step bars s e) = Some a)"
proof (cases e)
  case (Loaded i)
  with assms show ?thesis by simp
next
  case (Click a)
  show ?thesis
  proof (cases "handlers s")
    case None
    with Click assms show ?thesis by simp
  next
    case (Some c)
    show ?thesis
    proof (cases "a \<in> set bars \<and> click c a \<noteq> selected s")
      case True
      with Click Some have "selected (step bars s e) = click c a" by simp
      with True click_values [of c a] show ?thesis by auto
    next
      case False
      with Click Some have "step bars s e = s" by auto
      with assms show ?thesis by simp
    qed
  qed
qed

lemma run_snoc: "run bars (evs @ [e]) = step bars (run bars evs) e"
  by (simp add: run_def)

lemma run_selected:
  "selected (run bars evs) = None \<or> (\<exists>a \<in> set bars. selected (run bars evs) = Some a)"
proof (induction evs rule: rev_induct)
  case Nil
  show ?case by (simp add: run_def mounted_def initial_selectedArtist_def)
next
  case (snoc e evs)
  then show ?case unfolding run_snoc by (rule step_selected)
qed

subsection \<open>Stream chart: the cross-chart filter\<close>

text \<open>
  The filter by selection: a non-empty selection keeps the rows whose \<open>artist_name\<close>
  is that string; none and the empty string keep every row.
\<close>

lemma filteredData_cases:
  "(a \<noteq> [] \<longrightarrow> filteredData (Some a) rows = filter (\<lambda>d. or_str (artist_name d) [] = a) rows)
   \<and> (a \<noteq> [] \<longrightarrow> filteredData (Some a) rows = filter (\<lambda>d. artist_name d = Some a) rows)
   \<and> filteredData None rows = rows
   \<and> filteredData (Some []) rows = rows"
proof -
  have "or_str x [] = a \<longleftrightarrow> x = Some a" if "a \<noteq> []" for x
    using that by (cases x) (auto simp add: or_str_def)
  then show ?thesis
    by (simp add: filteredData_def)
qed

text \<open>
  Claim C6. The selection that the stream chart receives is a selection of the
  dashboard after some sequence of clicks and resolved loads. Whenever it is an artist,
  that artist is not the empty string and the chart keeps, before it aggregates, exactly
  the rows whose \<open>artist_name\<close> (a missing one counting as empty) equals the selected
  artist, which are the rows whose \<open>artist_name\<close> is present and is that very string.
  When there is no selection, every row passes.
\<close>

theorem filteredData_reachable_selection:
  "(\<forall>a. selected (run (bar_keys num data) evs) = Some a \<longrightarrow>
        a \<noteq> []
        \<and> filteredData (Some a) rows = filter (\<lambda>d. or_str (artist_name d) [] = a) rows
        \<and> filteredData (Some a) rows = filter (\<lambda>d. artist_name d = Some a) rows)
   \<and> filteredData None rows = rows"
proof -
  have "a \<noteq> []
        \<and> filteredData (Some a) rows = filter (\<lambda>d. or_str (artist_name d) [] = a) rows
        \<and> filteredData (Some a) rows = filter (\<lambda>d. artist_name d = Some a) rows"
    if "selected (run (bar_keys num data) evs) = Some a" for a
  proof -
    from that run_selected [of "bar_keys num data" evs]
    have "a \<in> set (bar_keys num data)" by auto
    then have "a \<noteq> []" by (rule bar_keys_nonempty)
    with filteredData_cases [of a rows] show ?thesis by blast
  qed
  with filteredData_cases [of "[]" rows] show ?thesis by blast
qed

text \<open>The sample file with five tracks of \<open>X\<close> has the single bar \<open>X\<close>.\<close>

lemma bar_keys_tracks_X5: "bar_keys sample_num tracks_X5 = [''X'']"
  by (simp add: bar_keys_def bar_top10_def top10_eq grouped_def rollups_def group_def
      cleaned_def clean_def tracks_X5_def track_def reducer_def d3_mean_def or_str_def
      or_opt_def truthy_def nullish_opt_def nullish_def isNaN_def sample_num_def)

lemma run_click_X: "selected (run [''X''] [Loaded 0, Click ''X'']) = Some ''X''"
  by (simp add: run_def mounted_def initial_selectedArtist_def click_def)

text \<open>
  The theorem after a click on \<open>X\<close>: of three rows, one of another artist and one that
  differs in the case of the letter, only the exact match is kept.
\<close>

theorem filteredData_reachable_selection_witness:
  "selected (run (bar_keys sample_num tracks_X5) [Loaded 0, Click ''X'']) = Some ''X''
   \<and> filteredData (Some ''X'') [track ''X'' ''80'', track ''Y'' ''60'', track ''x'' ''70'']
     = [track ''X'' ''80'']"
proof -
  have s: "selected (run (bar_keys sample_num tracks_X5) [Loaded 0, Click ''X'']) = Some ''X''"
    by (simp only: bar_keys_tracks_X5 run_click_X)
  with filteredData_reachable_selection [of sample_num tracks_X5 "[Loaded 0, Click ''X'']"
      "[track ''X'' ''80'', track ''Y'' ''60'', track ''x'' ''70'']"]
  have "filteredData (Some ''X'') [track ''X'' ''80'', track ''Y'' ''60'', track ''x'' ''70'']
     = filter (\<lambda>d. artist_name d = Some ''X'')
         [track ''X'' ''80'', track ''Y'' ''60'', track ''x'' ''70'']"
    by blast
  then have "filteredData (Some ''X'') [track ''X'' ''80'', track ''Y'' ''60'', track ''x'' ''70'']
     = [track ''X'' ''80'']"
    by (simp add: track_def)
  with s show ?thesis by blast
qed

subsection \<open>Bar chart: the selection toggle\<close>






text \<open>
  Two clicks with no redraw between them are both handled by the handlers of the same
  draw, so the second repeats the first.
\<close>

lemma two_clicks_before_redraw:
  "selected (run [''A''] [Loaded 0, Click ''A'', Click ''A'']) = Some ''A''
   \<and> selected (run [''A''] [Loaded 0, Click ''A'', Loaded 0, Click ''A'', Click ''A'']) = None"
  by (simp add: run_def mounted_def initial_selectedArtist_def click_def)

end
